theory Spec2Isabelle
  imports Main "HOL-Library.Sublist" "HOL-Library.Multiset"
begin

section \<open>Python built-ins used by the scripts\<close>

text \<open>
  Strings are Python 2 byte strings: lists of \<^typ>\<open>char\<close>. The newline character is
  \<open>CHR 0x0A\<close>.
\<close>

abbreviation NL :: char where
  "NL \<equiv> CHR 0x0A"

text \<open>\<open>s.split(d)\<close> for a one-character separator: never empty, \<open>''.split(d) == ['']\<close>.\<close>

fun split_on :: "char \<Rightarrow> string \<Rightarrow> string list" where
  "split_on d [] = [[]]"
| "split_on d (c # cs) =
     (if c = d then [] # split_on d cs
      else (case split_on d cs of [] \<Rightarrow> [[c]] | p # ps \<Rightarrow> (c # p) # ps))"

text \<open>
  \<open>f.readlines()\<close> of a file opened in text mode on POSIX: the content cut after every
  newline, each line keeping its newline; a last line without a newline is kept as it is.
\<close>

fun readlines :: "string \<Rightarrow> string list" where
  "readlines [] = []"
| "readlines (c # cs) =
     (if c = NL then [c] # readlines cs
      else (case readlines cs of [] \<Rightarrow> [[c]] | l # ls \<Rightarrow> (c # l) # ls))"

text \<open>\<open>f.writelines(lines)\<close> writes the strings one after the other, adding nothing.\<close>

definition writelines :: "string list \<Rightarrow> string" where
  "writelines lines = concat lines"

section \<open>build/landmines.py\<close>

subsection \<open>Paths\<close>

text \<open>
  A path is an absolute POSIX path, held as the list of its components: \<open>/a/b\<close> is
  \<open>[''a'', ''b'']\<close> and \<open>/\<close> is \<open>[]\<close>. Before normalisation a component may be empty
  or \<open>.\<close> (both mean "stay") or \<open>..\<close> (the parent). \<open>SRC_DIR\<close>, which the script computes
  from its own location with \<open>os.path.realpath\<close>, is a parameter of the model.
\<close>

type_synonym path = "string list"

text \<open>\<open>os.path.join(a, b)\<close> for an absolute \<open>a\<close>: an absolute \<open>b\<close> replaces \<open>a\<close>.\<close>

definition os_path_join :: "path \<Rightarrow> string \<Rightarrow> path" where
  "os_path_join a b =
     (case b of
        c # _ \<Rightarrow> if c = CHR ''/'' then split_on (CHR ''/'') b else a @ split_on (CHR ''/'') b
      | [] \<Rightarrow> a @ split_on (CHR ''/'') b)"

text \<open>
  \<open>os.path.normpath\<close> walks the components from the left: empty and \<open>.\<close> are skipped,
  \<open>..\<close> drops the last component kept so far (and is itself dropped at the root).
\<close>

definition normpath_step :: "path \<Rightarrow> string \<Rightarrow> path" where
  "normpath_step new_comps c =
     (if c = [] \<or> c = ''.'' then new_comps
      else if c = ''..'' then butlast new_comps
      else new_comps @ [c])"

definition os_path_normpath :: "path \<Rightarrow> path" where
  "os_path_normpath p = foldl normpath_step [] p"

text \<open>On an absolute path \<open>os.path.abspath\<close> is \<open>os.path.normpath\<close>.\<close>

definition os_path_abspath :: "path \<Rightarrow> path" where
  "os_path_abspath p = os_path_normpath p"

subsection \<open>Errors\<close>

datatype errno = EEXIST | ENOENT | ENOTDIR | EISDIR | EACCES | EBUSY | ENOSPC | EROFS

datatype error =
    NotImplementedError string
  | OSError errno
  | IOError errno
  | SystemExit int
  | ValueError
  | AttributeError
  | Exception string

subsection \<open>get_build_dir\<close>

definition environ_get :: "(string \<rightharpoonup> string) \<Rightarrow> string \<Rightarrow> string \<Rightarrow> string" where
  "environ_get env k dflt = (case env k of None \<Rightarrow> dflt | Some v \<Rightarrow> v)"

definition get_build_dir ::
  "path \<Rightarrow> (string \<rightharpoonup> string) \<Rightarrow> string \<Rightarrow> bool \<Rightarrow> error + path" where
  "get_build_dir SRC_DIR env build_tool is_iphone =
     (if build_tool = ''xcode'' then
        Inr (os_path_abspath (os_path_join SRC_DIR ''xcodebuild''))
      else if build_tool \<in> set [''make'', ''ninja'', ''ninja-ios''] then
        Inr (os_path_abspath
               (os_path_join SRC_DIR (environ_get env ''CHROMIUM_OUT_DIR'' ''out'')))
      else if build_tool \<in> set [''msvs'', ''vs'', ''ib''] then
        Inr (os_path_abspath (os_path_join SRC_DIR ''build''))
      else
        Inl (NotImplementedError (''Unexpected GYP_GENERATORS ('' @ build_tool @ '')'')))"

subsection \<open>The file system and the process environment\<close>

text \<open>
  The file system maps a path to what is there: a directory or a regular file with its
  content. What the operating system refuses for reasons the tree does not show
  (permissions, a busy file, a full disk) is an input of the model: a fault per kind of
  call. A refused \<open>rmtree\<close> may already have removed part of the tree; its fault names
  the entries that were gone when it struck.

  The trace lists, in order, the calls the script issued that can change the file system
  or write to standard output.
\<close>

datatype node = Dir | File string

datatype event =
    Makedirs path
  | Rmtree path
  | Write_file path string
  | Stdout string
  | Stdout_diff "string list" "string list"

datatype level = WARNING | DEBUG | ERROR

record world =
  environ :: "string \<rightharpoonup> string"
  fs :: "path \<rightharpoonup> node"
  makedirs_fault :: "errno option"
  open_read_fault :: "errno option"
  rmtree_fault :: "(errno \<times> path list) option"
  open_write_fault :: "errno option"
  log_level :: level
  trace :: "event list"

definition emit :: "event \<Rightarrow> world \<Rightarrow> world" where
  "emit ev w = w\<lparr>trace := trace w @ [ev]\<rparr>"

text \<open>
  \<open>os.makedirs(p)\<close>: \<open>EEXIST\<close> when something is at \<open>p\<close>, \<open>ENOTDIR\<close> when a regular
  file is on the way; otherwise \<open>p\<close> and every missing ancestor become directories.
\<close>

definition os_makedirs :: "path \<Rightarrow> world \<Rightarrow> (error + unit) \<times> world" where
  "os_makedirs p w0 =
     (let w = emit (Makedirs p) w0 in
      case makedirs_fault w of
        Some e \<Rightarrow> (Inl (OSError e), w)
      | None \<Rightarrow>
          if fs w p \<noteq> None then (Inl (OSError EEXIST), w)
          else if list_ex (\<lambda>q. case fs w q of Some (File _) \<Rightarrow> True | _ \<Rightarrow> False) (prefixes p)
          then (Inl (OSError ENOTDIR), w)
          else (Inr (), w\<lparr>fs := (\<lambda>q. if prefix q p \<and> fs w q = None then Some Dir else fs w q)\<rparr>))"

definition os_path_exists :: "path \<Rightarrow> world \<Rightarrow> bool" where
  "os_path_exists p w = (fs w p \<noteq> None)"

text \<open>\<open>open(p, 'r')\<close> followed by \<open>f.readlines()\<close>.\<close>

definition open_readlines :: "path \<Rightarrow> world \<Rightarrow> (error + string list) \<times> world" where
  "open_readlines p w =
     (case open_read_fault w of
        Some e \<Rightarrow> (Inl (IOError e), w)
      | None \<Rightarrow>
          (case fs w p of
             None \<Rightarrow> (Inl (IOError ENOENT), w)
           | Some Dir \<Rightarrow> (Inl (IOError EISDIR), w)
           | Some (File content) \<Rightarrow> (Inr (readlines content), w)))"

text \<open>
  \<open>shutil.rmtree(p)\<close> with the default \<open>onerror\<close>, which re-raises: \<open>p\<close> must be a
  directory; \<open>p\<close> and everything below it go.
\<close>

definition shutil_rmtree :: "path \<Rightarrow> world \<Rightarrow> (error + unit) \<times> world" where
  "shutil_rmtree p w0 =
     (let w = emit (Rmtree p) w0 in
      case rmtree_fault w of
        Some (e, gone) \<Rightarrow>
          (Inl (OSError e),
           w\<lparr>fs := (\<lambda>q. if strict_prefix p q \<and> q \<in> set gone then None else fs w q)\<rparr>)
      | None \<Rightarrow>
          (case fs w p of
             None \<Rightarrow> (Inl (OSError ENOENT), w)
           | Some (File _) \<Rightarrow> (Inl (OSError ENOTDIR), w)
           | Some Dir \<Rightarrow> (Inr (), w\<lparr>fs := (\<lambda>q. if prefix p q then None else fs w q)\<rparr>)))"

text \<open>
  \<open>open(p, 'w')\<close> followed by \<open>f.writelines(lines)\<close>: the parent must be a directory
  and \<open>p\<close> must not be one; the file then holds exactly the strings written.
\<close>

definition open_writelines :: "path \<Rightarrow> string list \<Rightarrow> world \<Rightarrow> (error + unit) \<times> world" where
  "open_writelines p lines w0 =
     (let w = emit (Write_file p (writelines lines)) w0 in
      case open_write_fault w of
        Some e \<Rightarrow> (Inl (IOError e), w)
      | None \<Rightarrow>
          (case fs w p of
             Some Dir \<Rightarrow> (Inl (IOError EISDIR), w)
           | _ \<Rightarrow>
               (case fs w (butlast p) of
                  Some Dir \<Rightarrow> (Inr (), w\<lparr>fs := (fs w)(p \<mapsto> File (writelines lines))\<rparr>)
                | Some (File _) \<Rightarrow> (Inl (IOError ENOTDIR), w)
                | None \<Rightarrow> (Inl (IOError ENOENT), w))))"

subsection \<open>clobber_if_necessary\<close>

text \<open>
  \<open>landmine_utils.builder()\<close> is not among the sources: it is the parameter \<open>builder\<close>,
  a function of the process environment. The unified diff that the script prints is
  recorded in the trace by the two lists it is computed from.
\<close>

definition landmines_path_of :: "path \<Rightarrow> path" where
  "landmines_path_of out_dir =
     os_path_normpath (os_path_join (os_path_join out_dir ''..'') ''.landmines'')"

text \<open>Lines 64 to 80: compare, clobber, save.\<close>

definition compare_and_save ::
  "path \<Rightarrow> path \<Rightarrow> string list \<Rightarrow> world \<Rightarrow> (error + unit) \<times> world" where
  "compare_and_save out_dir landmines_path new_landmines w =
     (if os_path_exists landmines_path w then
        (case open_readlines landmines_path w of
           (Inl err, w1) \<Rightarrow> (Inl err, w1)
         | (Inr old_landmines, w1) \<Rightarrow>
             if old_landmines \<noteq> new_landmines then
               (let w2 = emit (Stdout (''Clobbering due to:'' @ [NL])) w1;
                    w3 = emit (Stdout_diff old_landmines new_landmines) w2
                in case shutil_rmtree out_dir w3 of
                     (Inl err, w4) \<Rightarrow> (Inl err, w4)
                   | (Inr _, w4) \<Rightarrow> open_writelines landmines_path new_landmines w4)
             else open_writelines landmines_path new_landmines w1)
      else open_writelines landmines_path new_landmines w)"

text \<open>
  Lines 56 to 62. The handler of \<open>OSError\<close> tests for \<open>EEXIST\<close> and passes; it has no
  \<open>raise\<close> for the other case, so both branches go on.
\<close>

definition clobber_if_necessary ::
  "path \<Rightarrow> ((string \<rightharpoonup> string) \<Rightarrow> string) \<Rightarrow> string list \<Rightarrow> world \<Rightarrow> (error + unit) \<times> world" where
  "clobber_if_necessary SRC_DIR builder new_landmines w =
     (case get_build_dir SRC_DIR (environ w) (builder (environ w)) False of
        Inl err \<Rightarrow> (Inl err, w)
      | Inr out_dir \<Rightarrow>
          (let landmines_path = landmines_path_of out_dir in
           case os_makedirs out_dir w of
             (Inl (OSError e), w1) \<Rightarrow>
               if e = EEXIST then compare_and_save out_dir landmines_path new_landmines w1
               else compare_and_save out_dir landmines_path new_landmines w1
           | (Inl err, w1) \<Rightarrow> (Inl err, w1)
           | (Inr _, w1) \<Rightarrow> compare_and_save out_dir landmines_path new_landmines w1))"

subsection \<open>process_options and main\<close>

text \<open>
  \<open>s.splitlines()\<close> of a byte string: a line ends at \<open>\n\<close>, \<open>\r\<close> or \<open>\r\n\<close>; the
  terminators are dropped and there is no empty last line. The flag says that the
  character before was \<open>\r\<close>, so that a \<open>\n\<close> right after it ends no second line.
\<close>

abbreviation CR :: char where
  "CR \<equiv> CHR 0x0D"

fun splitlines_from :: "bool \<Rightarrow> string \<Rightarrow> string list" where
  "splitlines_from after_cr [] = []"
| "splitlines_from after_cr (c # cs) =
     (if c = NL then (if after_cr then splitlines_from False cs else [] # splitlines_from False cs)
      else if c = CR then [] # splitlines_from True cs
      else (case splitlines_from False cs of [] \<Rightarrow> [[c]] | l # ls \<Rightarrow> (c # l) # ls))"

definition splitlines :: "string \<Rightarrow> string list" where
  "splitlines s = splitlines_from False s"

text \<open>\<open>s.strip()\<close>: the characters of \<open>string.whitespace\<close> go from both ends.\<close>

definition is_space :: "char \<Rightarrow> bool" where
  "is_space c = (c \<in> set [CHR 0x20, CHR 0x09, NL, CR, CHR 0x0B, CHR 0x0C])"

definition strip :: "string \<Rightarrow> string" where
  "strip s = rev (dropWhile is_space (rev (dropWhile is_space s)))"

text \<open>The string of a path, as \<open>os.path.join\<close> builds it from an absolute first part.\<close>

definition path_string :: "path \<Rightarrow> string" where
  "path_string p = concat (map (\<lambda>c. ''/'' @ c) p)"

text \<open>
  The command line as \<open>optparse\<close> hands it over: the values of \<open>-s\<close> in order, whether
  \<open>-v\<close> was given, and the arguments left. An \<open>append\<close> option with a default list
  appends to that list. \<open>parser.error\<close> exits with status 2.
\<close>

record cmdline =
  opt_landmine_scripts :: "string list"
  opt_verbose :: bool
  args :: "string list"

definition process_options :: "path \<Rightarrow> cmdline \<Rightarrow> world \<Rightarrow> (error + string list) \<times> world" where
  "process_options SRC_DIR cl w =
     (let landmine_scripts =
            [path_string (os_path_join (os_path_join SRC_DIR ''build'') ''get_landmines.py'')]
              @ opt_landmine_scripts cl;
          verbose = (opt_verbose cl \<or> environ w ''LANDMINES_VERBOSE'' \<noteq> None)
      in if args cl \<noteq> [] then (Inl (SystemExit 2), w)
         else
           (let w1 = w\<lparr>log_level := (if verbose then DEBUG else ERROR)\<rparr>
            in case environ w1 ''EXTRA_LANDMINES_SCRIPT'' of
                 None \<Rightarrow> (Inr landmine_scripts, w1)
               | Some extra_script \<Rightarrow>
                   if extra_script \<noteq> [] then (Inr (landmine_scripts @ [extra_script]), w1)
                   else (Inr landmine_scripts, w1)))"

text \<open>
  The loop of \<open>main\<close> over the scripts. \<open>run\<close> gives the standard output of a script;
  what else a script does is outside the model.
\<close>

fun collect_landmines :: "(string \<Rightarrow> string) \<Rightarrow> string list \<Rightarrow> string list \<Rightarrow> string list" where
  "collect_landmines run landmines [] = landmines"
| "collect_landmines run landmines (s # ss) =
     collect_landmines run (landmines @ map (\<lambda>l. strip l @ [NL]) (splitlines (run s))) ss"

text \<open>
  \<open>gyp_environment.SetEnvironment()\<close> is not among the sources: it is the parameter
  \<open>SetEnvironment\<close>, which gives the new process environment.
\<close>

definition main ::
  "path \<Rightarrow> ((string \<rightharpoonup> string) \<Rightarrow> string) \<Rightarrow> (world \<Rightarrow> (string \<rightharpoonup> string)) \<Rightarrow>
   (world \<Rightarrow> string \<Rightarrow> string) \<Rightarrow> cmdline \<Rightarrow> world \<Rightarrow> (error + int) \<times> world" where
  "main SRC_DIR builder SetEnvironment run_script cl w =
     (case process_options SRC_DIR cl w of
        (Inl err, w1) \<Rightarrow> (Inl err, w1)
      | (Inr landmine_scripts, w1) \<Rightarrow>
          if builder (environ w1) \<in> set [''dump_dependency_json'', ''eclipse''] then (Inr 0, w1)
          else
            (let w2 = w1\<lparr>environ := SetEnvironment w1\<rparr>;
                 landmines = collect_landmines (run_script w2) [] landmine_scripts
             in case clobber_if_necessary SRC_DIR builder landmines w2 of
                  (Inl err, w3) \<Rightarrow> (Inl err, w3)
                | (Inr _, w3) \<Rightarrow> (Inr 0, w3)))"

section \<open>tools/findit/chromium_deps.py\<close>

subsection \<open>Strings and dictionaries\<close>

text \<open>\<open>s.lower()\<close> of a byte string in the C locale: only \<open>A\<close> to \<open>Z\<close> change.\<close>

definition lower_char :: "char \<Rightarrow> char" where
  "lower_char c =
     (let n = (of_char c :: nat) in if 65 \<le> n \<and> n \<le> 90 then char_of (n + 32) else c)"

definition lower :: "string \<Rightarrow> string" where
  "lower s = map lower_char s"

text \<open>\<open>sep.join(parts)\<close>.\<close>

fun str_join :: "string \<Rightarrow> string list \<Rightarrow> string" where
  "str_join sep [] = []"
| "str_join sep [x] = x"
| "str_join sep (x # y # ys) = x @ sep @ str_join sep (y # ys)"

definition endswith :: "string \<Rightarrow> string \<Rightarrow> bool" where
  "endswith s t = suffix t s"

text \<open>
  A value of the \<open>deps\<close> dictionary of a DEPS file is a string or \<open>None\<close>. A dictionary
  is an association list with one entry per key, read in the order of the list (the order
  in which Python 2 walks a dictionary is not specified). \<open>d[k] = v\<close> replaces the entry
  of \<open>k\<close> or adds one; \<open>d.update(e)\<close> does so for every entry of \<open>e\<close>.
\<close>

datatype pyval = Str string | PyNone

type_synonym deps_dict = "(string \<times> pyval) list"

fun dict_set :: "string \<Rightarrow> pyval \<Rightarrow> deps_dict \<Rightarrow> deps_dict" where
  "dict_set k v [] = [(k, v)]"
| "dict_set k v ((k', v') # d) = (if k' = k then (k, v) # d else (k', v') # dict_set k v d)"

fun dict_update :: "deps_dict \<Rightarrow> deps_dict \<Rightarrow> deps_dict" where
  "dict_update d [] = d"
| "dict_update d ((k, v) # e) = dict_update (dict_set k v d) e"

subsection \<open>What the module takes from outside\<close>

text \<open>
  \<open>deps_config.json\<close> and \<open>common/utils.py\<close> are not among the sources: the
  configuration is a record of the keys the module reads, and \<open>utils.IsGitHash\<close> is a
  parameter. So are the library calls whose results the module only passes on:
  \<open>template % value\<close>, \<open>base64.b64decode\<close>, and the \<open>exec\<close> of the DEPS file, which
  gives the local scope the file leaves behind.
\<close>

record config =
  git_base_url :: string
  git_deps_path :: string
  svn_base_url :: string
  svn_deps_path :: string
  svn_src_chromium_url :: string
  host_directories :: "string list"

record local_scope =
  scope_deps :: "deps_dict option"
  scope_deps_os :: "(string \<times> deps_dict) list option"

record externals =
  IsGitHash :: "string \<Rightarrow> bool"
  percent :: "string \<Rightarrow> string \<Rightarrow> error + string"
  b64decode :: "string \<Rightarrow> error + string"
  exec_deps :: "string \<Rightarrow> error + local_scope"

subsection \<open>_ParseDEPS\<close>

definition ParseDEPS :: "externals \<Rightarrow> string \<Rightarrow> error + (deps_dict \<times> (string \<times> deps_dict) list)" where
  "ParseDEPS ext content =
     (case exec_deps ext content of
        Inl err \<Rightarrow> Inl err
      | Inr scope \<Rightarrow>
          Inr (case scope_deps scope of None \<Rightarrow> [] | Some d \<Rightarrow> d,
               case scope_deps_os scope of None \<Rightarrow> [] | Some d \<Rightarrow> d))"

subsection \<open>_GetComponentName\<close>

definition components_renamed :: "string \<rightharpoonup> string" where
  "components_renamed = [''webkit'' \<mapsto> ''blink'']"

fun GetComponentName :: "string \<Rightarrow> string list \<Rightarrow> string" where
  "GetComponentName p [] = str_join ''_'' (split_on (CHR ''/'') p)"
| "GetComponentName p (host_dir # host_dirs) =
     (if prefix host_dir p then
        (let p' = drop (length host_dir) p;
             nm = lower (case split_on (CHR ''/'') p' of [] \<Rightarrow> [] | x # _ \<Rightarrow> x)
         in case components_renamed nm of
              Some renamed \<Rightarrow> lower renamed
            | None \<Rightarrow> lower nm)
      else GetComponentName p host_dirs)"

subsection \<open>GetChromiumComponents\<close>

record component =
  path :: string
  name :: string
  repository :: string
  repository_type :: string
  revision :: string

text \<open>
  The loop over \<open>all_deps\<close> (lines 121 to 143). Its state is the dictionary built so
  far and the variable \<open>is_git_hash\<close>, which the loop body assigns and which is read
  again after the loop.
\<close>

fun components_loop ::
  "externals \<Rightarrow> config \<Rightarrow> deps_dict \<Rightarrow> bool \<times> (string \<rightharpoonup> component) \<Rightarrow>
   error + bool \<times> (string \<rightharpoonup> component)" where
  "components_loop ext cfg [] st = Inr st"
| "components_loop ext cfg ((component_path, v) # rest) (is_git_hash, components) =
     (let nm = GetComponentName component_path (host_directories cfg)
      in case v of
           PyNone \<Rightarrow> Inl AttributeError
         | Str s \<Rightarrow>
             (case split_on (CHR ''@'') s of
                [repo, revn] \<Rightarrow>
                  (let is_git_hash' = IsGitHash ext revn;
                       repo' = (if prefix ''/'' repo then svn_src_chromium_url cfg @ repo else repo);
                       repo_type = (if is_git_hash' then ''git'' else ''svn'');
                       component_path' =
                         (if \<not> endswith component_path ''/'' then component_path @ ''/''
                          else component_path)
                   in components_loop ext cfg rest
                        (is_git_hash',
                         components(component_path' \<mapsto>
                           \<lparr>path = component_path', name = nm, repository = repo',
                            repository_type = repo_type, revision = revn\<rparr>)))
              | _ \<Rightarrow> Inl ValueError))"

definition GetChromiumComponents ::
  "externals \<Rightarrow> config \<Rightarrow> string \<Rightarrow> string option \<Rightarrow> (string \<Rightarrow> error + string) \<Rightarrow>
   error + (string \<rightharpoonup> component)" where
  "GetChromiumComponents ext cfg chromium_revision os_platform deps_file_downloader =
     (case os_platform of
        None \<Rightarrow> Inl AttributeError
      | Some given_platform \<Rightarrow>
     (let os_platform' = (if lower given_platform = ''linux'' then ''unix'' else given_platform);
          is_git_hash = IsGitHash ext chromium_revision
      in case (if is_git_hash then percent ext (git_deps_path cfg) chromium_revision
               else percent ext (svn_deps_path cfg) chromium_revision) of
           Inl err \<Rightarrow> Inl err
         | Inr deps_path \<Rightarrow>
     (let url = (if is_git_hash then git_base_url cfg @ deps_path else svn_base_url cfg @ deps_path)
      in case deps_file_downloader url of
           Inl err \<Rightarrow> Inl err
         | Inr downloaded \<Rightarrow>
     (case (if is_git_hash then b64decode ext downloaded else Inr downloaded) of
           Inl err \<Rightarrow> Inl err
         | Inr deps_content \<Rightarrow>
     (case ParseDEPS ext deps_content of
           Inl err \<Rightarrow> Inl err
         | Inr (deps, deps_os) \<Rightarrow>
     (let all_deps = dict_update [] deps;
          all_deps = dict_update all_deps
                       (case map_of deps_os os_platform' of None \<Rightarrow> [] | Some d \<Rightarrow> d)
      in case components_loop ext cfg all_deps (is_git_hash, Map.empty) of
           Inl err \<Rightarrow> Inl err
         | Inr (is_git_hash, components) \<Rightarrow>
             (let repo = (if is_git_hash then git_base_url cfg else svn_base_url cfg);
                  repo_type = (if is_git_hash then ''git'' else ''svn'')
              in Inr (components(''src/'' \<mapsto>
                        \<lparr>path = ''src/'', name = ''chromium'', repository = repo,
                         repository_type = repo_type, revision = chromium_revision\<rparr>)))))))))"

section \<open>Notions used in the properties\<close>

text \<open>A normalised path has no empty, \<open>.\<close> or \<open>..\<close> component.\<close>

definition normalized :: "path \<Rightarrow> bool" where
  "normalized p = list_all (\<lambda>c. c \<noteq> [] \<and> c \<noteq> ''.'' \<and> c \<noteq> ''..'') p"


text \<open>
  A landmine line as \<open>main\<close> builds it: text without a newline, then one newline. A
  line-shaped string has no newline except, possibly, as its last character.
\<close>

definition landmine_line :: "string \<Rightarrow> bool" where
  "landmine_line l = (l \<noteq> [] \<and> last l = NL \<and> NL \<notin> set (butlast l))"


text \<open>The calls an invocation added to the trace.\<close>

definition new_events :: "world \<Rightarrow> world \<Rightarrow> event list" where
  "new_events w w' = drop (length (trace w)) (trace w')"

text \<open>Every key of a dictionary of components ends with a slash and is the \<open>path\<close> of its entry.\<close>

definition keys_ok :: "(string \<rightharpoonup> component) \<Rightarrow> bool" where
  "keys_ok m = (\<forall>k c. m k = Some c \<longrightarrow> endswith k ''/'' \<and> path c = k)"

section \<open>Concrete inputs\<close>

text \<open>A builder that reads \<open>GYP_GENERATORS\<close> and defaults to ninja.\<close>

definition gyp_builder :: "(string \<rightharpoonup> string) \<Rightarrow> string" where
  "gyp_builder env = environ_get env ''GYP_GENERATORS'' ''ninja''"

text \<open>A checkout that was built before: \<open>/src/out\<close> holds an object file, the marker one line.\<close>

definition built_fs :: "path \<rightharpoonup> node" where
  "built_fs =
     [[] \<mapsto> Dir, [''src''] \<mapsto> Dir, [''src'', ''out''] \<mapsto> Dir,
      [''src'', ''out'', ''obj.o''] \<mapsto> File ''ELF'',
      [''src'', ''.landmines''] \<mapsto> File (''x'' @ [NL])]"

definition built_world :: world where
  "built_world =
     \<lparr>environ = Map.empty, fs = built_fs, makedirs_fault = None, open_read_fault = None,
      rmtree_fault = None, open_write_fault = None, log_level = WARNING, trace = []\<rparr>"

text \<open>The same checkout when the operating system refuses to delete below \<open>/src/out\<close>.\<close>

definition locked_world :: world where
  "locked_world = built_world\<lparr>rmtree_fault := Some (EACCES, [[''src'', ''out'', ''obj.o'']])\<rparr>"


text \<open>
  A checkout at \<open>/src\<close> whose \<open>CHROMIUM_OUT_DIR\<close> is \<open>..\<close>: the build output directory
  is the root of the file system and the marker is \<open>/.landmines\<close>, inside it. The
  operating system refuses the deletion after the marker is gone.
\<close>

definition root_world :: world where
  "root_world =
     \<lparr>environ = [''CHROMIUM_OUT_DIR'' \<mapsto> ''..''],
      fs = [[] \<mapsto> Dir, [''src''] \<mapsto> Dir, [''.landmines''] \<mapsto> File (''x'' @ [NL])],
      makedirs_fault = None, open_read_fault = None,
      rmtree_fault = Some (EACCES, [[''.landmines'']]), open_write_fault = None,
      log_level = WARNING, trace = []\<rparr>"

text \<open>A fresh checkout: neither the output directory nor the marker is there.\<close>

definition fresh_fs :: "path \<rightharpoonup> node" where
  "fresh_fs = [[] \<mapsto> Dir, [''src''] \<mapsto> Dir]"

definition fresh_world :: world where
  "fresh_world =
     \<lparr>environ = Map.empty, fs = fresh_fs, makedirs_fault = None, open_read_fault = None,
      rmtree_fault = None, open_write_fault = None, log_level = WARNING, trace = []\<rparr>"

text \<open>A fresh checkout in which the operating system refuses to create directories.\<close>

definition denied_world :: world where
  "denied_world = fresh_world\<lparr>makedirs_fault := Some EACCES\<rparr>"

text \<open>A process environment that selects the Eclipse generator.\<close>

definition eclipse_world :: world where
  "eclipse_world = built_world\<lparr>environ := [''GYP_GENERATORS'' \<mapsto> ''eclipse'']\<rparr>"


text \<open>A landmine script that prints two lines, and the landmines \<open>main\<close> makes of them.\<close>

definition example_script_output :: "string \<Rightarrow> string" where
  "example_script_output script = ''os:linux'' @ [NL] @ '' ninja ''"

definition example_landmines :: "string list" where
  "example_landmines = collect_landmines example_script_output [] [''get_landmines.py'']"

definition example_run_script :: "world \<Rightarrow> string \<Rightarrow> string" where
  "example_run_script w script = example_script_output script"

text \<open>A command line without options or arguments.\<close>

definition no_options :: cmdline where
  "no_options = \<lparr>opt_landmine_scripts = [], opt_verbose = False, args = []\<rparr>"

text \<open>
  A configuration, and the functions around a DEPS file with two dependencies and an
  override for one platform. The formatting of the example puts the value in place of
  each \<open>%s\<close> of the template.
\<close>

fun percent_s :: "string \<Rightarrow> string \<Rightarrow> string" where
  "percent_s (c # d # cs) v =
     (if c = CHR ''%'' \<and> d = CHR ''s'' then v @ percent_s cs v else c # percent_s (d # cs) v)"
| "percent_s cs v = cs"

definition example_config :: config where
  "example_config =
     \<lparr>git_base_url = ''https://git/'', git_deps_path = ''+/%s/DEPS'',
      svn_base_url = ''https://svn/'', svn_deps_path = ''DEPS?p=%s'',
      svn_src_chromium_url = ''https://src'',
      host_directories = [''src/third_party/'', ''src/'']\<rparr>"

definition example_scope :: local_scope where
  "example_scope =
     \<lparr>scope_deps = Some [(''src/third_party/WebKit'', Str ''/branches/blink@1234''),
                         (''src/v8/'', Str ''https://git/v8.git@99'')],
      scope_deps_os = Some [(''unix'', [(''src/third_party/WebKit'', Str ''/trunk/blink@1235'')])]\<rparr>"

definition example_externals :: externals where
  "example_externals =
     \<lparr>IsGitHash = (\<lambda>s. length s = 40),
      percent = (\<lambda>template v. Inr (percent_s template v)),
      b64decode = (\<lambda>s. Inr s),
      exec_deps = (\<lambda>content. if content = ''DEPS of 12345'' then Inr example_scope
                               else Inl (Exception ''SyntaxError''))\<rparr>"

definition example_downloader :: "string \<Rightarrow> error + string" where
  "example_downloader url =
     (if url = ''https://svn/DEPS?p=12345'' then Inr ''DEPS of 12345''
      else Inl (Exception ''not found''))"

section \<open>Lemmas\<close>

subsection \<open>Lines\<close>

lemma readlines_line: "NL \<notin> set b \<Longrightarrow> readlines (b @ NL # t) = (b @ [NL]) # readlines t"
  by (induction b) auto

lemma readlines_landmine_line:
  assumes "landmine_line l"
  shows "readlines (l @ t) = l # readlines t"
proof -
  from assms have l: "l = butlast l @ [NL]" and b: "NL \<notin> set (butlast l)"
    by (auto simp: landmine_line_def dest: append_butlast_last_id)
  have "readlines (butlast l @ NL # t) = (butlast l @ [NL]) # readlines t"
    using b by (rule readlines_line)
  with l show ?thesis by (metis append.assoc append_Cons append_Nil)
qed

lemma readlines_concat_lines:
  "list_all landmine_line ls \<Longrightarrow> readlines (concat ls @ t) = ls @ readlines t"
  by (induction ls) (simp_all add: readlines_landmine_line)

lemma readlines_writelines:
  "list_all landmine_line ls \<Longrightarrow> readlines (writelines ls) = ls"
  using readlines_concat_lines [of ls "[]"] by (simp add: writelines_def)










lemma splitlines_from_no_newline: "l \<in> set (splitlines_from f s) \<Longrightarrow> NL \<notin> set l"
proof (induction s arbitrary: f l)
  case Nil
  then show ?case by simp
next
  case (Cons c s)
  show ?case
  proof (cases "c = NL \<or> c = CR")
    case True
    with Cons show ?thesis by (auto split: if_splits)
  next
    case False
    then show ?thesis
      using Cons.prems Cons.IH [of _ False]
      by (cases "splitlines_from False s") auto
  qed
qed

lemma strip_subset: "set (strip l) \<subseteq> set l"
  unfolding strip_def by (auto dest!: set_dropWhileD)

lemma landmine_line_strip:
  "l \<in> set (splitlines s) \<Longrightarrow> landmine_line (strip l @ [NL])"
  using splitlines_from_no_newline [of l False s] strip_subset [of l]
  by (auto simp: landmine_line_def splitlines_def)

lemma collect_landmines_lines:
  "list_all landmine_line acc \<Longrightarrow> list_all landmine_line (collect_landmines run acc scripts)"
proof (induction scripts arbitrary: acc)
  case Nil
  then show ?case by simp
next
  case (Cons s scripts)
  have "list_all landmine_line (map (\<lambda>l. strip l @ [NL]) (splitlines (run s)))"
    by (simp add: list_all_iff landmine_line_strip)
  with Cons.prems have "list_all landmine_line (acc @ map (\<lambda>l. strip l @ [NL]) (splitlines (run s)))"
    by simp
  then show ?case using Cons.IH by simp
qed

subsection \<open>Paths and the file system\<close>

lemma normalized_butlast: "normalized p \<Longrightarrow> normalized (butlast p)"
  by (auto simp: normalized_def list_all_iff dest: in_set_butlastD)

lemma normalized_step: "normalized acc \<Longrightarrow> normalized (normpath_step acc c)"
  by (auto simp: normpath_step_def normalized_butlast) (auto simp: normalized_def)

lemma normalized_foldl: "normalized acc \<Longrightarrow> normalized (foldl normpath_step acc p)"
  by (induction p arbitrary: acc) (auto simp: normalized_step)

lemma normalized_normpath: "normalized (os_path_normpath p)"
  unfolding os_path_normpath_def by (rule normalized_foldl) (simp add: normalized_def)

lemma foldl_normalized: "normalized p \<Longrightarrow> foldl normpath_step acc p = acc @ p"
  by (induction p arbitrary: acc) (auto simp: normalized_def normpath_step_def)

lemma landmines_path_normalized:
  "normalized out_dir \<Longrightarrow> landmines_path_of out_dir = butlast out_dir @ [''.landmines'']"
  by (simp add: landmines_path_of_def os_path_join_def os_path_normpath_def foldl_normalized normpath_step_def)

lemma get_build_dir_Inr:
  "get_build_dir S env b i = Inr out_dir \<Longrightarrow> \<exists>p. out_dir = os_path_normpath p"
  unfolding get_build_dir_def os_path_abspath_def
  by (simp only: sum.inject sum.distinct split: if_splits) blast+

lemma get_build_dir_normalized:
  "get_build_dir S env b i = Inr out_dir \<Longrightarrow> normalized out_dir"
  using get_build_dir_Inr normalized_normpath by blast

lemma marker_of_build_dir:
  "get_build_dir S env b i = Inr out_dir \<Longrightarrow> landmines_path_of out_dir = butlast out_dir @ [''.landmines'']"
  by (simp add: landmines_path_normalized get_build_dir_normalized)

lemma marker_not_strictly_below:
  "out_dir \<noteq> [] \<Longrightarrow> \<not> strict_prefix out_dir (butlast out_dir @ [m])"
  by (cases out_dir rule: rev_cases) (simp_all add: strict_prefix_def)

lemma os_makedirs_result:
  "fst (os_makedirs p w) = Inr () \<or> (\<exists>e. fst (os_makedirs p w) = Inl (OSError e))"
  by (simp add: os_makedirs_def Let_def split: option.splits)

lemma os_makedirs_frame [simp]:
  "trace (snd (os_makedirs p w)) = trace w @ [Makedirs p]"
  "environ (snd (os_makedirs p w)) = environ w"
  "makedirs_fault (snd (os_makedirs p w)) = makedirs_fault w"
  "open_read_fault (snd (os_makedirs p w)) = open_read_fault w"
  "rmtree_fault (snd (os_makedirs p w)) = rmtree_fault w"
  "open_write_fault (snd (os_makedirs p w)) = open_write_fault w"
  "log_level (snd (os_makedirs p w)) = log_level w"
  by (simp_all add: os_makedirs_def emit_def Let_def split: option.splits)

lemma os_makedirs_keeps: "fs w q = Some n \<Longrightarrow> fs (snd (os_makedirs p w)) q = Some n"
  by (simp add: os_makedirs_def emit_def Let_def split: option.splits)

lemma os_makedirs_fs:
  "fs (snd (os_makedirs p w)) q = fs w q \<or> (fs w q = None \<and> fs (snd (os_makedirs p w)) q = Some Dir \<and> prefix q p)"
  by (simp add: os_makedirs_def emit_def Let_def split: option.splits)

lemma os_makedirs_Inr: "fst (os_makedirs p w) = Inr () \<Longrightarrow> fs (snd (os_makedirs p w)) p = Some Dir"
  by (simp add: os_makedirs_def emit_def Let_def split: option.splits if_splits)

lemma clobber_if_necessary_unfold:
  assumes "get_build_dir SRC_DIR (environ w) (builder (environ w)) False = Inr out_dir"
  shows "clobber_if_necessary SRC_DIR builder new_landmines w =
           compare_and_save out_dir (landmines_path_of out_dir) new_landmines (snd (os_makedirs out_dir w))"
proof -
  obtain r w1 where m: "os_makedirs out_dir w = (r, w1)" by (cases "os_makedirs out_dir w")
  from os_makedirs_result [of out_dir w] m have "r = Inr () \<or> (\<exists>e. r = Inl (OSError e))" by simp
  then show ?thesis
    using assms m by (auto simp: clobber_if_necessary_def)
qed

lemma shutil_rmtree_frame [simp]:
  "trace (snd (shutil_rmtree p w)) = trace w @ [Rmtree p]"
  "environ (snd (shutil_rmtree p w)) = environ w"
  "makedirs_fault (snd (shutil_rmtree p w)) = makedirs_fault w"
  "open_read_fault (snd (shutil_rmtree p w)) = open_read_fault w"
  "rmtree_fault (snd (shutil_rmtree p w)) = rmtree_fault w"
  "open_write_fault (snd (shutil_rmtree p w)) = open_write_fault w"
  "log_level (snd (shutil_rmtree p w)) = log_level w"
  by (simp_all add: shutil_rmtree_def emit_def Let_def split: option.splits node.splits prod.splits)

lemma shutil_rmtree_result:
  "fst (shutil_rmtree p w) = Inr () \<or> (\<exists>e. fst (shutil_rmtree p w) = Inl (OSError e))"
  by (simp add: shutil_rmtree_def Let_def split: option.splits node.splits prod.splits)

lemma shutil_rmtree_Inr:
  "fst (shutil_rmtree p w) = Inr () \<Longrightarrow>
     rmtree_fault w = None \<and> fs w p = Some Dir \<and>
     fs (snd (shutil_rmtree p w)) = (\<lambda>q. if prefix p q then None else fs w q)"
  by (simp add: shutil_rmtree_def emit_def Let_def cong: if_cong split: option.splits node.splits prod.splits)

lemma shutil_rmtree_emit: "fst (shutil_rmtree p (emit ev w)) = fst (shutil_rmtree p w)"
  by (simp add: shutil_rmtree_def emit_def Let_def split: option.splits node.splits prod.splits)

lemma shutil_rmtree_failed:
  "fst (shutil_rmtree p w) \<noteq> Inr () \<Longrightarrow> \<not> strict_prefix p q \<Longrightarrow>
     fs (snd (shutil_rmtree p w)) q = fs w q"
  by (auto simp: shutil_rmtree_def emit_def Let_def split: option.splits node.splits prod.splits)

lemma open_writelines_frame [simp]:
  "trace (snd (open_writelines p ls w)) = trace w @ [Write_file p (writelines ls)]"
  "environ (snd (open_writelines p ls w)) = environ w"
  "makedirs_fault (snd (open_writelines p ls w)) = makedirs_fault w"
  "open_read_fault (snd (open_writelines p ls w)) = open_read_fault w"
  "rmtree_fault (snd (open_writelines p ls w)) = rmtree_fault w"
  "open_write_fault (snd (open_writelines p ls w)) = open_write_fault w"
  "log_level (snd (open_writelines p ls w)) = log_level w"
  by (simp_all add: open_writelines_def emit_def Let_def split: option.splits node.splits)

lemma open_writelines_Inr:
  "fst (open_writelines p ls w) = Inr () \<Longrightarrow>
     fs w (butlast p) = Some Dir \<and> fs w p \<noteq> Some Dir \<and>
     fs (snd (open_writelines p ls w)) = (fs w)(p \<mapsto> File (writelines ls))"
  by (simp add: open_writelines_def emit_def Let_def split: option.splits node.splits)

lemma open_writelines_other:
  "q \<noteq> p \<Longrightarrow> fs (snd (open_writelines p ls w)) q = fs w q"
  by (simp add: open_writelines_def emit_def Let_def split: option.splits node.splits)

lemma emit_frame [simp]:
  "trace (emit ev w) = trace w @ [ev]"
  "fs (emit ev w) = fs w"
  "environ (emit ev w) = environ w"
  "makedirs_fault (emit ev w) = makedirs_fault w"
  "open_read_fault (emit ev w) = open_read_fault w"
  "rmtree_fault (emit ev w) = rmtree_fault w"
  "open_write_fault (emit ev w) = open_write_fault w"
  "log_level (emit ev w) = log_level w"
  by (simp_all add: emit_def)

text \<open>The three ways through lines 64 to 80.\<close>

lemma compare_and_save_absent:
  "fs w m = None \<Longrightarrow> compare_and_save out m new w = open_writelines m new w"
  by (simp add: compare_and_save_def os_path_exists_def)

lemma compare_and_save_same:
  "fs w m = Some (File content) \<Longrightarrow> open_read_fault w = None \<Longrightarrow> readlines content = new \<Longrightarrow>
     compare_and_save out m new w = open_writelines m new w"
  by (simp add: compare_and_save_def os_path_exists_def open_readlines_def)

lemma compare_and_save_changed:
  "fs w m = Some (File content) \<Longrightarrow> open_read_fault w = None \<Longrightarrow> readlines content \<noteq> new \<Longrightarrow>
     compare_and_save out m new w =
       (let w3 = emit (Stdout_diff (readlines content) new) (emit (Stdout (''Clobbering due to:'' @ [NL])) w)
        in if fst (shutil_rmtree out w3) = Inr ()
           then open_writelines m new (snd (shutil_rmtree out w3))
           else shutil_rmtree out w3)"
  using shutil_rmtree_result [of out "emit (Stdout_diff (readlines content) new) (emit (Stdout (''Clobbering due to:'' @ [NL])) w)"]
  by (auto simp: compare_and_save_def os_path_exists_def open_readlines_def Let_def split: prod.splits sum.splits)

lemma prefix_marker:
  "prefix out_dir (butlast out_dir @ [m]) \<longleftrightarrow> out_dir = [] \<or> out_dir = butlast out_dir @ [m]"
proof (cases out_dir rule: rev_cases)
  case Nil
  then show ?thesis by simp
next
  case (snoc ys y)
  then show ?thesis by (auto simp: prefix_def)
qed



lemma open_readlines_world [simp]: "snd (open_readlines p w) = w"
  by (simp add: open_readlines_def split: option.splits node.splits)

lemma compare_and_save_cases:
  assumes "compare_and_save out m new w = (r, w')"
  obtains
    (save) "fs w m = None \<or> (\<exists>content. fs w m = Some (File content) \<and> readlines content = new)"
      "open_writelines m new w = (r, w')"
  | (unreadable) e where "open_read_fault w \<noteq> None \<or> fs w m = Some Dir"
      "r = Inl (IOError e)" "w' = w" "fs w m \<noteq> None"
  | (clobber) content where "fs w m = Some (File content)" "open_read_fault w = None"
      "readlines content \<noteq> new"
      "(let w3 = emit (Stdout_diff (readlines content) new) (emit (Stdout (''Clobbering due to:'' @ [NL])) w)
        in if fst (shutil_rmtree out w3) = Inr ()
           then open_writelines m new (snd (shutil_rmtree out w3))
           else shutil_rmtree out w3) = (r, w')"
proof (cases "fs w m")
  case None
  with assms show ?thesis by (intro save) (simp_all add: compare_and_save_absent)
next
  case (Some n)
  show ?thesis
  proof (cases "open_read_fault w")
    case flt: (Some e)
    with Some assms have "r = Inl (IOError e)" "w' = w"
      by (auto simp: compare_and_save_def os_path_exists_def open_readlines_def)
    with Some flt show ?thesis by (intro unreadable) simp_all
  next
    case rd: None
    show ?thesis
    proof (cases n)
      case Dir
      with Some rd assms have "r = Inl (IOError EISDIR)" "w' = w"
        by (auto simp: compare_and_save_def os_path_exists_def open_readlines_def)
      with Some Dir show ?thesis by (intro unreadable) simp_all
    next
      case (File content)
      show ?thesis
      proof (cases "readlines content = new")
        case True
        with Some File rd assms show ?thesis
          by (intro save) (simp_all add: compare_and_save_same)
      next
        case False
        with Some File rd assms show ?thesis
          by (intro clobber [of content]) (simp_all add: compare_and_save_changed)
      qed
    qed
  qed
qed

lemma clobber_then_save:
  assumes m_eq: "m = butlast out @ [x]"
    and mk: "fs w3 m = Some (File c)"
    and rm: "fst (shutil_rmtree out w3) = Inr ()"
    and wr: "open_writelines m new (snd (shutil_rmtree out w3)) = (Inr (), w')"
  shows "(\<forall>q. prefix out q \<longrightarrow> fs w' q = None) \<and> fs w' m = Some (File (writelines new))
         \<and> fs w' (butlast m) = Some Dir \<and> open_write_fault w3 = None"
proof -
  let ?rm = "shutil_rmtree out w3"
  from shutil_rmtree_Inr [OF rm]
  have dir: "fs w3 out = Some Dir"
    and gone: "fs (snd ?rm) = (\<lambda>q. if prefix out q then None else fs w3 q)"
    by simp_all
  from wr have ok: "fst (open_writelines m new (snd ?rm)) = Inr ()"
    and w': "w' = snd (open_writelines m new (snd ?rm))" by simp_all
  from open_writelines_Inr [OF ok]
  have parent: "fs (snd ?rm) (butlast m) = Some Dir"
    and upd: "fs w' = (fs (snd ?rm))(m \<mapsto> File (writelines new))"
    unfolding w' by simp_all
  have nofault: "open_write_fault w3 = None"
    using ok by (simp add: open_writelines_def Let_def split: option.splits)
  from parent gone have "\<not> prefix out (butlast out)"
    by (simp add: m_eq split: if_splits)
  then have ne_root: "out \<noteq> []" by auto
  from dir mk have "out \<noteq> m" by auto
  with ne_root have np: "\<not> prefix out m"
    unfolding m_eq prefix_marker by blast
  then have "\<forall>q. prefix out q \<longrightarrow> q \<noteq> m" by blast
  moreover have "butlast m \<noteq> m" by (simp add: m_eq)
  ultimately show ?thesis using parent nofault unfolding upd gone by simp
qed

lemma compare_and_save_frame [simp]:
  "environ (snd (compare_and_save out m new w)) = environ w"
  "makedirs_fault (snd (compare_and_save out m new w)) = makedirs_fault w"
  "open_read_fault (snd (compare_and_save out m new w)) = open_read_fault w"
  "rmtree_fault (snd (compare_and_save out m new w)) = rmtree_fault w"
  "open_write_fault (snd (compare_and_save out m new w)) = open_write_fault w"
  "log_level (snd (compare_and_save out m new w)) = log_level w"
  by (auto simp: compare_and_save_def Let_def split: prod.splits sum.splits
      simp: prod_eq_iff [of "open_readlines m w"] prod_eq_iff [of "shutil_rmtree out _"])

lemma clobber_changed:
  assumes gb: "get_build_dir SRC_DIR (environ w) (builder (environ w)) False = Inr out_dir"
    and mk: "fs w (landmines_path_of out_dir) = Some (File content)"
    and rd: "open_read_fault w = None"
    and ne: "readlines content \<noteq> new_landmines"
  shows "clobber_if_necessary SRC_DIR builder new_landmines w =
          (let w3 = emit (Stdout_diff (readlines content) new_landmines)
                      (emit (Stdout (''Clobbering due to:'' @ [NL])) (snd (os_makedirs out_dir w)))
           in if fst (shutil_rmtree out_dir w3) = Inr ()
              then open_writelines (landmines_path_of out_dir) new_landmines (snd (shutil_rmtree out_dir w3))
              else shutil_rmtree out_dir w3)"
proof -
  have mk1: "fs (snd (os_makedirs out_dir w)) (landmines_path_of out_dir) = Some (File content)"
    using mk by (rule os_makedirs_keeps)
  show ?thesis
    using clobber_if_necessary_unfold [where builder = builder and w = w and new_landmines = new_landmines, OF gb]
      compare_and_save_changed [OF mk1 _ ne, of out_dir] rd
    by simp
qed

lemma clobber_changed_run:
  assumes gb: "get_build_dir SRC_DIR (environ w) (builder (environ w)) False = Inr out_dir"
    and mk: "fs w (landmines_path_of out_dir) = Some (File content)"
    and rd: "open_read_fault w = None"
    and ne: "readlines content \<noteq> new_landmines"
    and res: "clobber_if_necessary SRC_DIR builder new_landmines w = (r, w')"
  shows "(\<exists>post. trace w' = trace w @ [Makedirs out_dir, Stdout (''Clobbering due to:'' @ [NL]),
             Stdout_diff (readlines content) new_landmines, Rmtree out_dir] @ post
           \<and> (post = [] \<or> post = [Write_file (landmines_path_of out_dir) (writelines new_landmines)]))
       \<and> (r = Inr () \<longrightarrow>
             last (trace w') = Write_file (landmines_path_of out_dir) (writelines new_landmines)
           \<and> (\<forall>q. prefix out_dir q \<longrightarrow> fs w' q = None)
           \<and> fs w' (landmines_path_of out_dir) = Some (File (writelines new_landmines)))"
proof -
  let ?m = "landmines_path_of out_dir"
  let ?w1 = "snd (os_makedirs out_dir w)"
  let ?w3 = "emit (Stdout_diff (readlines content) new_landmines)
               (emit (Stdout (''Clobbering due to:'' @ [NL])) ?w1)"
  let ?rm = "shutil_rmtree out_dir ?w3"
  have m_eq: "?m = butlast out_dir @ [''.landmines'']"
    using gb by (rule marker_of_build_dir)
  have mk3: "fs ?w3 ?m = Some (File content)"
    using os_makedirs_keeps [OF mk] by simp
  from clobber_changed [where builder = builder and w = w, OF gb mk rd ne] res
  have step: "(r, w') = (if fst ?rm = Inr () then open_writelines ?m new_landmines (snd ?rm) else ?rm)"
    by (simp add: Let_def)
  show ?thesis
  proof (cases "fst ?rm = Inr ()")
    case False
    with step have "(r, w') = ?rm" by simp
    then have r: "r = fst ?rm" and w': "w' = snd ?rm" by (simp_all add: prod_eq_iff)
    from False r have "r \<noteq> Inr ()" by simp
    moreover have "trace w' = trace w @ [Makedirs out_dir, Stdout (''Clobbering due to:'' @ [NL]),
             Stdout_diff (readlines content) new_landmines, Rmtree out_dir] @ []"
      unfolding w' by simp
    ultimately show ?thesis by blast
  next
    case True
    let ?wr = "open_writelines ?m new_landmines (snd ?rm)"
    from True step have "(r, w') = ?wr" by simp
    then have r: "r = fst ?wr" and w': "w' = snd ?wr" by (simp_all add: prod_eq_iff)
    have tr: "trace w' = trace w @ [Makedirs out_dir, Stdout (''Clobbering due to:'' @ [NL]),
             Stdout_diff (readlines content) new_landmines, Rmtree out_dir]
             @ [Write_file ?m (writelines new_landmines)]"
      unfolding w' by simp
    have "(\<forall>q. prefix out_dir q \<longrightarrow> fs w' q = None)
           \<and> fs w' ?m = Some (File (writelines new_landmines))" if ok: "r = Inr ()"
    proof -
      from ok r w' have "?wr = (Inr (), w')" by (simp add: prod_eq_iff)
      from clobber_then_save [OF m_eq mk3 True this] show ?thesis by simp
    qed
    with tr show ?thesis by simp
  qed
qed

lemma new_events_append [simp]: "trace w' = trace w @ evs \<Longrightarrow> new_events w w' = evs"
  by (simp add: new_events_def)

lemma open_writelines_nofault:
  "fst (open_writelines p ls w) = Inr () \<Longrightarrow> open_write_fault w = None"
  by (simp add: open_writelines_def Let_def split: option.splits)

lemma clobber_success:
  assumes gb: "get_build_dir SRC_DIR (environ w) (builder (environ w)) False = Inr out_dir"
    and res: "clobber_if_necessary SRC_DIR builder new_landmines w = (Inr (), w')"
  shows "fs w' (landmines_path_of out_dir) = Some (File (writelines new_landmines))
       \<and> fs w' (butlast (landmines_path_of out_dir)) = Some Dir
       \<and> open_write_fault w = None
       \<and> ((new_events w w' = [Makedirs out_dir,
               Write_file (landmines_path_of out_dir) (writelines new_landmines)]
            \<and> (\<forall>q. q \<noteq> landmines_path_of out_dir \<longrightarrow> fs w' q = fs (snd (os_makedirs out_dir w)) q))
          \<or> ((\<exists>old. new_events w w' = [Makedirs out_dir, Stdout (''Clobbering due to:'' @ [NL]),
               Stdout_diff old new_landmines, Rmtree out_dir,
               Write_file (landmines_path_of out_dir) (writelines new_landmines)])
            \<and> (\<forall>q. prefix out_dir q \<longrightarrow> fs w' q = None)))"
proof -
  let ?m = "landmines_path_of out_dir"
  let ?w1 = "snd (os_makedirs out_dir w)"
  have m_eq: "?m = butlast out_dir @ [''.landmines'']"
    using gb by (rule marker_of_build_dir)
  have cs: "compare_and_save out_dir ?m new_landmines ?w1 = (Inr (), w')"
    using clobber_if_necessary_unfold [where builder = builder and w = w and new_landmines = new_landmines, OF gb] res
    by simp
  from cs show ?thesis
  proof (cases rule: compare_and_save_cases)
    case save
    then have ok: "fst (open_writelines ?m new_landmines ?w1) = Inr ()"
      and w': "w' = snd (open_writelines ?m new_landmines ?w1)" by simp_all
    from open_writelines_Inr [OF ok]
    have parent: "fs ?w1 (butlast ?m) = Some Dir"
      and upd: "fs w' = (fs ?w1)(?m \<mapsto> File (writelines new_landmines))"
      unfolding w' by simp_all
    have "butlast ?m \<noteq> ?m" by (simp add: m_eq)
    with parent upd have "fs w' (butlast ?m) = Some Dir" by simp
    moreover have "open_write_fault w = None"
      using open_writelines_nofault [OF ok] by simp
    moreover have "trace w' = trace w @ [Makedirs out_dir, Write_file ?m (writelines new_landmines)]"
      unfolding w' by simp
    then have "new_events w w' = [Makedirs out_dir, Write_file ?m (writelines new_landmines)]"
      by (rule new_events_append)
    ultimately show ?thesis using upd by simp
  next
    case (unreadable e)
    then show ?thesis by simp
  next
    case (clobber content)
    let ?w3 = "emit (Stdout_diff (readlines content) new_landmines)
                 (emit (Stdout (''Clobbering due to:'' @ [NL])) ?w1)"
    let ?rm = "shutil_rmtree out_dir ?w3"
    have rm: "fst ?rm = Inr ()"
    proof (rule ccontr)
      assume "fst ?rm \<noteq> Inr ()"
      with clobber(4) have "?rm = (Inr (), w')" by (simp add: Let_def)
      with \<open>fst ?rm \<noteq> Inr ()\<close> show False by simp
    qed
    with clobber(4) have wr: "open_writelines ?m new_landmines (snd ?rm) = (Inr (), w')"
      by (simp add: Let_def)
    have mk3: "fs ?w3 ?m = Some (File content)" using clobber(1) by simp
    from clobber_then_save [OF m_eq mk3 rm wr]
    have a: "\<forall>q. prefix out_dir q \<longrightarrow> fs w' q = None"
      and b: "fs w' ?m = Some (File (writelines new_landmines))"
      and c: "fs w' (butlast ?m) = Some Dir"
      and d: "open_write_fault w = None" by simp_all
    from wr have w': "w' = snd (open_writelines ?m new_landmines (snd ?rm))" by simp
    have "trace w' = trace w @ [Makedirs out_dir, Stdout (''Clobbering due to:'' @ [NL]),
               Stdout_diff (readlines content) new_landmines, Rmtree out_dir,
               Write_file ?m (writelines new_landmines)]"
      unfolding w' by simp
    then have "new_events w w' = [Makedirs out_dir, Stdout (''Clobbering due to:'' @ [NL]),
               Stdout_diff (readlines content) new_landmines, Rmtree out_dir,
               Write_file ?m (writelines new_landmines)]"
      by (rule new_events_append)
    with a b c d show ?thesis by blast
  qed
qed

lemma open_writelines_at:
  "fs (snd (open_writelines p ls w)) p = Some (File (writelines ls))
   \<or> fs (snd (open_writelines p ls w)) p = fs w p"
  by (simp add: open_writelines_def emit_def Let_def split: option.splits node.splits)

lemma open_writelines_succeeds:
  assumes "open_write_fault w = None" "fs w p \<noteq> Some Dir" "fs w (butlast p) = Some Dir"
  shows "fst (open_writelines p ls w) = Inr ()"
  using assms by (simp add: open_writelines_def emit_def Let_def split: option.splits node.splits)

lemma clobber_if_necessary_frame:
  assumes "get_build_dir SRC_DIR (environ w) (builder (environ w)) False = Inr out_dir"
  shows "environ (snd (clobber_if_necessary SRC_DIR builder new_landmines w)) = environ w"
    and "open_read_fault (snd (clobber_if_necessary SRC_DIR builder new_landmines w)) = open_read_fault w"
    and "open_write_fault (snd (clobber_if_necessary SRC_DIR builder new_landmines w)) = open_write_fault w"
    and "rmtree_fault (snd (clobber_if_necessary SRC_DIR builder new_landmines w)) = rmtree_fault w"
    and "makedirs_fault (snd (clobber_if_necessary SRC_DIR builder new_landmines w)) = makedirs_fault w"
  using clobber_if_necessary_unfold [where builder = builder and w = w and new_landmines = new_landmines, OF assms]
  by simp_all

lemma empty_landmines_run:
  assumes gb: "get_build_dir SRC_DIR (environ w) (builder (environ w)) False = Inr out_dir"
    and mk: "fs w (landmines_path_of out_dir) = None \<or> fs w (landmines_path_of out_dir) = Some (File [])"
    and res: "clobber_if_necessary SRC_DIR builder [] w = (r, w')"
  shows "(\<exists>post. new_events w w' = Makedirs out_dir # post
            \<and> (post = [] \<or> post = [Write_file (landmines_path_of out_dir) []]))
       \<and> (\<forall>q n. fs w q = Some n \<longrightarrow> fs w' q = Some n)"
proof -
  let ?m = "landmines_path_of out_dir"
  let ?w1 = "snd (os_makedirs out_dir w)"
  have cs: "compare_and_save out_dir ?m [] ?w1 = (r, w')"
    using clobber_if_necessary_unfold [where builder = builder and w = w and new_landmines = "[]", OF gb] res
    by simp
  from cs show ?thesis
  proof (cases rule: compare_and_save_cases)
    case save
    then have w': "w' = snd (open_writelines ?m [] ?w1)" by simp
    have "trace w' = trace w @ [Makedirs out_dir, Write_file ?m []]"
      unfolding w' by (simp add: writelines_def)
    then have ev: "new_events w w' = [Makedirs out_dir, Write_file ?m []]"
      by (rule new_events_append)
    have "fs w' q = Some n" if q: "fs w q = Some n" for q n
    proof (cases "q = ?m")
      case False
      then have "fs w' q = fs ?w1 q" unfolding w' by (rule open_writelines_other)
      with os_makedirs_keeps [OF q] show ?thesis by simp
    next
      case True
      with q mk have n: "n = File []" by auto
      from os_makedirs_keeps [OF q] True n have "fs ?w1 ?m = Some (File [])" by simp
      with open_writelines_at [of ?m "[]" ?w1] True n show ?thesis
        unfolding w' by (auto simp: writelines_def)
    qed
    with ev show ?thesis by simp
  next
    case (unreadable e)
    have "trace w' = trace w @ [Makedirs out_dir]" unfolding unreadable(3) by simp
    then have "new_events w w' = [Makedirs out_dir]" by (rule new_events_append)
    moreover have "fs w' q = Some n" if "fs w q = Some n" for q n
      unfolding unreadable(3) using that by (rule os_makedirs_keeps)
    ultimately show ?thesis by simp
  next
    case (clobber content)
    from mk show ?thesis
    proof
      assume "fs w ?m = None"
      with os_makedirs_fs [of out_dir w ?m] clobber(1) show ?thesis by auto
    next
      assume "fs w ?m = Some (File [])"
      from os_makedirs_keeps [OF this] clobber(1) have "content = []" by simp
      with clobber(3) show ?thesis by simp
    qed
  qed
qed

lemma second_run:
  assumes gb: "get_build_dir SRC_DIR (environ w) (builder (environ w)) False = Inr out_dir"
    and lines: "list_all landmine_line new_landmines"
    and first: "clobber_if_necessary SRC_DIR builder new_landmines w = (Inr (), w1)"
    and second: "clobber_if_necessary SRC_DIR builder new_landmines w1 = (r2, w2)"
  shows "readlines (writelines new_landmines) = new_landmines
       \<and> fs w1 (landmines_path_of out_dir) = Some (File (writelines new_landmines))
       \<and> fs w2 (landmines_path_of out_dir) = Some (File (writelines new_landmines))
       \<and> (\<exists>post. new_events w1 w2 = Makedirs out_dir # post
            \<and> (post = [] \<or> post = [Write_file (landmines_path_of out_dir) (writelines new_landmines)]))
       \<and> (open_read_fault w = None \<longrightarrow>
            r2 = Inr () \<and> new_events w1 w2 =
              [Makedirs out_dir, Write_file (landmines_path_of out_dir) (writelines new_landmines)])"
proof -
  let ?m = "landmines_path_of out_dir"
  let ?c = "writelines new_landmines"
  let ?w1a = "snd (os_makedirs out_dir w1)"
  have rt: "readlines ?c = new_landmines" using lines by (rule readlines_writelines)
  from clobber_success [where builder = builder and w = w, OF gb first]
  have m1: "fs w1 ?m = Some (File ?c)" and p1: "fs w1 (butlast ?m) = Some Dir"
    and wf: "open_write_fault w = None" by simp_all
  from clobber_if_necessary_frame [where builder = builder and w = w and new_landmines = new_landmines, OF gb] first
  have env: "environ w1 = environ w" and rf: "open_read_fault w1 = open_read_fault w"
    and wf1: "open_write_fault w1 = open_write_fault w" by simp_all
  from gb env have gb1: "get_build_dir SRC_DIR (environ w1) (builder (environ w1)) False = Inr out_dir"
    by simp
  have cs: "compare_and_save out_dir ?m new_landmines ?w1a = (r2, w2)"
    using clobber_if_necessary_unfold [where builder = builder and w = w1 and new_landmines = new_landmines, OF gb1] second
    by simp
  have m1a: "fs ?w1a ?m = Some (File ?c)" using m1 by (rule os_makedirs_keeps)
  have p1a: "fs ?w1a (butlast ?m) = Some Dir" using p1 by (rule os_makedirs_keeps)
  from cs have "fs w2 ?m = Some (File ?c)
       \<and> (\<exists>post. new_events w1 w2 = Makedirs out_dir # post
            \<and> (post = [] \<or> post = [Write_file ?m ?c]))
       \<and> (open_read_fault w = None \<longrightarrow>
            r2 = Inr () \<and> new_events w1 w2 = [Makedirs out_dir, Write_file ?m ?c])"
  proof (cases rule: compare_and_save_cases)
    case save
    have "fst (open_writelines ?m new_landmines ?w1a) = Inr ()"
      using wf wf1 m1a p1a by (intro open_writelines_succeeds) simp_all
    with save(2) have r2: "r2 = Inr ()" and w2: "w2 = snd (open_writelines ?m new_landmines ?w1a)"
      by auto
    have "trace w2 = trace w1 @ [Makedirs out_dir, Write_file ?m ?c]" unfolding w2 by simp
    then have "new_events w1 w2 = [Makedirs out_dir, Write_file ?m ?c]" by (rule new_events_append)
    moreover have "fs w2 ?m = Some (File ?c)"
      using open_writelines_at [of ?m new_landmines ?w1a] m1a unfolding w2 by auto
    ultimately show ?thesis using r2 by simp
  next
    case (unreadable e)
    from unreadable(1) m1a rf have "open_read_fault w \<noteq> None" by auto
    moreover have "trace w2 = trace w1 @ [Makedirs out_dir]" unfolding unreadable(3) by simp
    then have "new_events w1 w2 = [Makedirs out_dir]" by (rule new_events_append)
    moreover have "fs w2 ?m = Some (File ?c)" unfolding unreadable(3) by (rule m1a)
    ultimately show ?thesis by simp
  next
    case (clobber content)
    from clobber(1) m1a have "content = ?c" by simp
    with clobber(3) rt show ?thesis by simp
  qed
  with rt m1 show ?thesis by simp
qed










lemma marker_prefix_of_out_dir:
  "prefix (butlast out_dir @ [m]) out_dir \<Longrightarrow> out_dir = butlast out_dir @ [m]"
proof (cases out_dir rule: rev_cases)
  case Nil
  assume "prefix (butlast out_dir @ [m]) out_dir"
  with Nil show ?thesis by simp
next
  case (snoc ys y)
  assume "prefix (butlast out_dir @ [m]) out_dir"
  with snoc show ?thesis by (auto simp: prefix_def)
qed

lemma compare_and_save_clobber_event:
  assumes "(let w3 = emit (Stdout_diff old new) (emit (Stdout banner) w1)
            in if fst (shutil_rmtree out w3) = Inr ()
               then open_writelines m new (snd (shutil_rmtree out w3))
               else shutil_rmtree out w3) = (r, w')"
    and "trace w1 = trace w @ [Makedirs out]"
  shows "Rmtree out \<in> set (new_events w w')"
proof -
  let ?w3 = "emit (Stdout_diff old new) (emit (Stdout banner) w1)"
  let ?rm = "shutil_rmtree out ?w3"
  show ?thesis
  proof (cases "fst ?rm = Inr ()")
    case True
    with assms(1) have w': "w' = snd (open_writelines m new (snd ?rm))" by (simp add: Let_def)
    have "trace w' = trace w @ [Makedirs out, Stdout banner, Stdout_diff old new, Rmtree out,
            Write_file m (writelines new)]"
      unfolding w' using assms(2) by simp
    then have "new_events w w' = [Makedirs out, Stdout banner, Stdout_diff old new, Rmtree out,
            Write_file m (writelines new)]" by (rule new_events_append)
    then show ?thesis by simp
  next
    case False
    with assms(1) have w': "w' = snd ?rm" by (simp add: Let_def)
    have "trace w' = trace w @ [Makedirs out, Stdout banner, Stdout_diff old new, Rmtree out]"
      unfolding w' using assms(2) by simp
    then have "new_events w w' = [Makedirs out, Stdout banner, Stdout_diff old new, Rmtree out]"
      by (rule new_events_append)
    then show ?thesis by simp
  qed
qed

lemma no_clobber_keeps_directory:
  assumes gb: "get_build_dir SRC_DIR (environ w) (builder (environ w)) False = Inr out_dir"
    and res: "clobber_if_necessary SRC_DIR builder new_landmines w = (Inr (), w')"
    and nc: "Rmtree out_dir \<notin> set (new_events w w')"
    and there: "fst (os_makedirs out_dir w) = Inr () \<or> fs w out_dir = Some Dir"
  shows "fs w' out_dir = Some Dir"
proof -
  let ?m = "landmines_path_of out_dir"
  let ?w1 = "snd (os_makedirs out_dir w)"
  have dir1: "fs ?w1 out_dir = Some Dir"
    using there os_makedirs_Inr [of out_dir w] os_makedirs_keeps [of w out_dir Dir out_dir] by auto
  have cs: "compare_and_save out_dir ?m new_landmines ?w1 = (Inr (), w')"
    using clobber_if_necessary_unfold [where builder = builder and w = w and new_landmines = new_landmines, OF gb] res
    by simp
  from cs show ?thesis
  proof (cases rule: compare_and_save_cases)
    case save
    then have ok: "fst (open_writelines ?m new_landmines ?w1) = Inr ()"
      and w': "w' = snd (open_writelines ?m new_landmines ?w1)" by simp_all
    from open_writelines_Inr [OF ok] have "fs ?w1 ?m \<noteq> Some Dir" by simp
    with dir1 have "out_dir \<noteq> ?m" by auto
    then have "fs w' out_dir = fs ?w1 out_dir" unfolding w' by (rule open_writelines_other)
    with dir1 show ?thesis by simp
  next
    case (unreadable e)
    then show ?thesis by simp
  next
    case (clobber content)
    have "trace ?w1 = trace w @ [Makedirs out_dir]" by simp
    from compare_and_save_clobber_event [OF clobber(4) this] nc show ?thesis by simp
  qed
qed

lemma empty_landmines_effects:
  assumes gb: "get_build_dir SRC_DIR (environ w) (builder (environ w)) False = Inr out_dir"
    and mk: "fs w (landmines_path_of out_dir) = None \<or> fs w (landmines_path_of out_dir) = Some (File [])"
    and res: "clobber_if_necessary SRC_DIR builder [] w = (r, w')"
  shows "(fst (os_makedirs out_dir w) = Inr () \<longrightarrow> fs w' out_dir = Some Dir)
       \<and> ((fs w (landmines_path_of out_dir) = None \<and> out_dir \<noteq> landmines_path_of out_dir)
            \<or> (fs w (landmines_path_of out_dir) = Some (File []) \<and> open_read_fault w = None) \<longrightarrow>
            new_events w w' = [Makedirs out_dir, Write_file (landmines_path_of out_dir) []])
       \<and> (r = Inr () \<longrightarrow> fs w' (landmines_path_of out_dir) = Some (File []))"
proof -
  let ?m = "landmines_path_of out_dir"
  let ?w1 = "snd (os_makedirs out_dir w)"
  have m_eq: "?m = butlast out_dir @ [''.landmines'']"
    using gb by (rule marker_of_build_dir)
  have cs: "compare_and_save out_dir ?m [] ?w1 = (r, w')"
    using clobber_if_necessary_unfold [where builder = builder and w = w and new_landmines = "[]", OF gb] res
    by simp
  have not_file: "False" if "fs ?w1 ?m = Some (File content)" "readlines content \<noteq> []" for content
    using mk
  proof
    assume "fs w ?m = None"
    with os_makedirs_fs [of out_dir w ?m] that(1) show False by auto
  next
    assume "fs w ?m = Some (File [])"
    from os_makedirs_keeps [OF this] that show False by simp
  qed
  from cs show ?thesis
  proof (cases rule: compare_and_save_cases)
    case save
    then have w': "w' = snd (open_writelines ?m [] ?w1)"
      and r: "r = fst (open_writelines ?m [] ?w1)" by auto
    have "trace w' = trace w @ [Makedirs out_dir, Write_file ?m []]"
      unfolding w' by (simp add: writelines_def)
    then have ev: "new_events w w' = [Makedirs out_dir, Write_file ?m []]"
      by (rule new_events_append)
    have "fs w' out_dir = Some Dir" if "fst (os_makedirs out_dir w) = Inr ()"
    proof -
      from that have dir1: "fs ?w1 out_dir = Some Dir" by (rule os_makedirs_Inr)
      with save(1) have "out_dir \<noteq> ?m" by auto
      then have "fs w' out_dir = fs ?w1 out_dir" unfolding w' by (rule open_writelines_other)
      with dir1 show ?thesis by simp
    qed
    moreover have "fs w' ?m = Some (File [])" if "r = Inr ()"
      using open_writelines_Inr [of ?m "[]" ?w1] that r w' by (simp add: writelines_def)
    ultimately show ?thesis using ev by simp
  next
    case (unreadable e)
    have dir: "fs w' out_dir = Some Dir" if "fst (os_makedirs out_dir w) = Inr ()"
      unfolding unreadable(3) using that by (rule os_makedirs_Inr)
    have "\<not> ((fs w ?m = None \<and> out_dir \<noteq> ?m) \<or> (fs w ?m = Some (File []) \<and> open_read_fault w = None))"
    proof
      assume "(fs w ?m = None \<and> out_dir \<noteq> ?m) \<or> (fs w ?m = Some (File []) \<and> open_read_fault w = None)"
      then show False
      proof
        assume a: "fs w ?m = None \<and> out_dir \<noteq> ?m"
        from unreadable(4) have "fs ?w1 ?m \<noteq> None" .
        with os_makedirs_fs [of out_dir w ?m] a have "prefix ?m out_dir" by auto
        then have "out_dir = ?m" unfolding m_eq by (rule marker_prefix_of_out_dir)
        with a show False by simp
      next
        assume a: "fs w ?m = Some (File []) \<and> open_read_fault w = None"
        then have "fs ?w1 ?m = Some (File [])" by (simp add: os_makedirs_keeps)
        with unreadable(1) a show False by simp
      qed
    qed
    with dir unreadable(2) show ?thesis by auto
  next
    case (clobber content)
    from not_file [OF clobber(1) clobber(3)] show ?thesis ..
  qed
qed

lemma failed_deletion_run:
  assumes gb: "get_build_dir SRC_DIR (environ w) (builder (environ w)) False = Inr out_dir"
    and nr: "out_dir \<noteq> []"
    and mk: "fs w (landmines_path_of out_dir) = Some (File content)"
    and rd: "open_read_fault w = None"
    and ne: "readlines content \<noteq> new_landmines"
    and fails: "fst (shutil_rmtree out_dir (snd (os_makedirs out_dir w))) = Inl err"
    and res: "clobber_if_necessary SRC_DIR builder new_landmines w = (r, w')"
  shows "r = Inl err
       \<and> fs w' (landmines_path_of out_dir) = Some (File content)
       \<and> new_events w w' = [Makedirs out_dir, Stdout (''Clobbering due to:'' @ [NL]),
             Stdout_diff (readlines content) new_landmines, Rmtree out_dir]
       \<and> (\<forall>r2 w2. clobber_if_necessary SRC_DIR builder new_landmines w' = (r2, w2) \<longrightarrow>
             Rmtree out_dir \<in> set (new_events w' w2))"
proof -
  let ?m = "landmines_path_of out_dir"
  let ?w1 = "snd (os_makedirs out_dir w)"
  let ?w3 = "emit (Stdout_diff (readlines content) new_landmines)
               (emit (Stdout (''Clobbering due to:'' @ [NL])) ?w1)"
  let ?rm = "shutil_rmtree out_dir ?w3"
  have m_eq: "?m = butlast out_dir @ [''.landmines'']"
    using gb by (rule marker_of_build_dir)
  have mk3: "fs ?w3 ?m = Some (File content)"
    using os_makedirs_keeps [OF mk] by simp
  have fails3: "fst ?rm = Inl err"
    using fails by (simp only: shutil_rmtree_emit)
  from clobber_changed [where builder = builder and w = w, OF gb mk rd ne] res fails3
  have "(r, w') = ?rm" by (simp add: Let_def)
  then have r: "r = fst ?rm" and w': "w' = snd ?rm" by (simp_all add: prod_eq_iff)
  have "\<not> strict_prefix out_dir ?m"
    unfolding m_eq using nr by (rule marker_not_strictly_below)
  moreover from fails3 have "fst ?rm \<noteq> Inr ()" by simp
  ultimately have "fs w' ?m = fs ?w3 ?m"
    unfolding w' by (intro shutil_rmtree_failed)
  with mk3 have "fs w' ?m = Some (File content)" by simp
  moreover have "trace w' = trace w @ [Makedirs out_dir, Stdout (''Clobbering due to:'' @ [NL]),
             Stdout_diff (readlines content) new_landmines, Rmtree out_dir]"
    unfolding w' by simp
  then have "new_events w w' = [Makedirs out_dir, Stdout (''Clobbering due to:'' @ [NL]),
             Stdout_diff (readlines content) new_landmines, Rmtree out_dir]"
    by (rule new_events_append)
  moreover have "Rmtree out_dir \<in> set (new_events w' w2)"
    if again: "clobber_if_necessary SRC_DIR builder new_landmines w' = (r2, w2)" for r2 w2
  proof -
    from clobber_if_necessary_frame [where builder = builder and w = w and new_landmines = new_landmines, OF gb] res
    have env: "environ w' = environ w" and rd': "open_read_fault w' = open_read_fault w"
      by simp_all
    from gb env have gb': "get_build_dir SRC_DIR (environ w') (builder (environ w')) False = Inr out_dir"
      by simp
    from rd rd' have rd'': "open_read_fault w' = None" by simp
    from clobber_changed_run [where builder = builder and w = w', OF gb' \<open>fs w' ?m = Some (File content)\<close> rd'' ne again]
    obtain post where "trace w2 = trace w' @ [Makedirs out_dir, Stdout (''Clobbering due to:'' @ [NL]),
             Stdout_diff (readlines content) new_landmines, Rmtree out_dir] @ post"
      by blast
    then have "new_events w' w2 = [Makedirs out_dir, Stdout (''Clobbering due to:'' @ [NL]),
             Stdout_diff (readlines content) new_landmines, Rmtree out_dir] @ post"
      by (rule new_events_append)
    then show ?thesis by simp
  qed
  ultimately show ?thesis using r fails3 by simp
qed

lemma failed_deletion_abort:
  assumes gb: "get_build_dir SRC_DIR (environ w) (builder (environ w)) False = Inr out_dir"
    and mk: "fs w (landmines_path_of out_dir) = Some (File content)"
    and rd: "open_read_fault w = None"
    and ne: "readlines content \<noteq> new_landmines"
    and fails: "fst (shutil_rmtree out_dir (snd (os_makedirs out_dir w))) = Inl err"
    and res: "clobber_if_necessary SRC_DIR builder new_landmines w = (r, w')"
  shows "r = Inl err
       \<and> new_events w w' = [Makedirs out_dir, Stdout (''Clobbering due to:'' @ [NL]),
             Stdout_diff (readlines content) new_landmines, Rmtree out_dir]"
proof -
  let ?w1 = "snd (os_makedirs out_dir w)"
  let ?w3 = "emit (Stdout_diff (readlines content) new_landmines)
               (emit (Stdout (''Clobbering due to:'' @ [NL])) ?w1)"
  let ?rm = "shutil_rmtree out_dir ?w3"
  have fails3: "fst ?rm = Inl err"
    using fails by (simp only: shutil_rmtree_emit)
  from clobber_changed [where builder = builder and w = w, OF gb mk rd ne] res fails3
  have "(r, w') = ?rm" by (simp add: Let_def)
  then have r: "r = fst ?rm" and w': "w' = snd ?rm" by (simp_all add: prod_eq_iff)
  have "trace w' = trace w @ [Makedirs out_dir, Stdout (''Clobbering due to:'' @ [NL]),
             Stdout_diff (readlines content) new_landmines, Rmtree out_dir]"
    unfolding w' by simp
  then have "new_events w w' = [Makedirs out_dir, Stdout (''Clobbering due to:'' @ [NL]),
             Stdout_diff (readlines content) new_landmines, Rmtree out_dir]"
    by (rule new_events_append)
  with r fails3 show ?thesis by simp
qed

subsection \<open>Components\<close>

lemma keys_ok_empty: "keys_ok Map.empty"
  by (simp add: keys_ok_def)

lemma keys_ok_update:
  "keys_ok m \<Longrightarrow> endswith k ''/'' \<Longrightarrow> path c = k \<Longrightarrow> keys_ok (m(k \<mapsto> c))"
  by (simp add: keys_ok_def)

lemma endswith_slash: "endswith (if \<not> endswith p ''/'' then p @ ''/'' else p) ''/''"
  by (simp add: endswith_def)

lemma components_loop_keys:
  "components_loop ext cfg deps (g, m) = Inr (g', m') \<Longrightarrow> keys_ok m \<Longrightarrow> keys_ok m'"
proof (induction deps arbitrary: g m)
  case Nil
  then show ?case by simp
next
  case (Cons kv deps)
  obtain component_path v where kv: "kv = (component_path, v)" by (cases kv)
  from Cons.prems(1) obtain s where v: "v = Str s"
    unfolding kv by (cases v) (simp_all add: Let_def)
  from Cons.prems(1) obtain repo revn where sp: "split_on (CHR ''@'') s = [repo, revn]"
    unfolding kv v by (auto simp: Let_def split: list.splits)
  let ?k = "if \<not> endswith component_path ''/'' then component_path @ ''/'' else component_path"
  let ?c = "\<lparr>path = ?k, name = GetComponentName component_path (host_directories cfg),
             repository = (if prefix ''/'' repo then svn_src_chromium_url cfg @ repo else repo),
             repository_type = (if IsGitHash ext revn then ''git'' else ''svn''),
             revision = revn\<rparr>"
  from Cons.prems(1)
  have step: "components_loop ext cfg deps (IsGitHash ext revn, m(?k \<mapsto> ?c)) = Inr (g', m')"
    unfolding kv v by (simp add: sp Let_def)
  have "keys_ok (m(?k \<mapsto> ?c))"
    using Cons.prems(2) endswith_slash [of component_path] by (intro keys_ok_update) simp_all
  with step show ?case by (rule Cons.IH)
qed

lemma GetChromiumComponents_Inr:
  assumes "GetChromiumComponents ext cfg chromium_revision os_platform deps_file_downloader = Inr components"
  obtains all_deps g0 g m where
    "components_loop ext cfg all_deps (g0, Map.empty) = Inr (g, m)"
    "components = m(''src/'' \<mapsto>
        \<lparr>path = ''src/'', name = ''chromium'',
         repository = (if g then git_base_url cfg else svn_base_url cfg),
         repository_type = (if g then ''git'' else ''svn''),
         revision = chromium_revision\<rparr>)"
  using assms unfolding GetChromiumComponents_def Let_def
  by (auto split: option.splits sum.splits prod.splits)

section \<open>The landmine guard\<close>

text \<open>
  C1, as the code has it. After a successful invocation the marker file holds the new
  landmines written one after the other, which read back as the same list when every line
  is newline-terminated. If the invocation clobbered, nothing is left at or below the build
  output directory: it is not created again. If it did not clobber, and the directory was
  there as a directory or its creation succeeded, it is a directory afterwards.
\<close>

theorem C1_marker_and_output_directory_after_success:
  assumes gb: "get_build_dir SRC_DIR (environ w) (builder (environ w)) False = Inr out_dir"
    and res: "clobber_if_necessary SRC_DIR builder new_landmines w = (Inr (), w')"
  shows "fs w' (landmines_path_of out_dir) = Some (File (writelines new_landmines))
       \<and> (list_all landmine_line new_landmines \<longrightarrow>
            readlines (writelines new_landmines) = new_landmines)
       \<and> (Rmtree out_dir \<in> set (new_events w w') \<longrightarrow>
            (\<forall>q. prefix out_dir q \<longrightarrow> fs w' q = None))
       \<and> (Rmtree out_dir \<notin> set (new_events w w') \<longrightarrow>
            fst (os_makedirs out_dir w) = Inr () \<or> fs w out_dir = Some Dir \<longrightarrow>
            fs w' out_dir = Some Dir)"
proof -
  let ?m = "landmines_path_of out_dir"
  note s = clobber_success [where builder = builder and w = w, OF gb res]
  from s have marker: "fs w' ?m = Some (File (writelines new_landmines))" by simp
  from s have "Rmtree out_dir \<in> set (new_events w w') \<longrightarrow> (\<forall>q. prefix out_dir q \<longrightarrow> fs w' q = None)"
    by auto
  moreover have "fs w' out_dir = Some Dir"
    if "Rmtree out_dir \<notin> set (new_events w w')"
      and "fst (os_makedirs out_dir w) = Inr () \<or> fs w out_dir = Some Dir"
    using no_clobber_keeps_directory [where builder = builder and w = w, OF gb res that] .
  ultimately show ?thesis using marker by (simp add: readlines_writelines)
qed

theorem C1_witness:
  "get_build_dir [''src''] (environ fresh_world) (gyp_builder (environ fresh_world)) False
     = Inr [''src'', ''out'']
   \<and> fst (clobber_if_necessary [''src''] gyp_builder [''y'' @ [NL]] fresh_world) = Inr ()
   \<and> fs (snd (clobber_if_necessary [''src''] gyp_builder [''y'' @ [NL]] fresh_world))
        [''src'', ''.landmines''] = Some (File (''y'' @ [NL]))
   \<and> fs (snd (clobber_if_necessary [''src''] gyp_builder [''y'' @ [NL]] fresh_world))
        [''src'', ''out''] = Some Dir"
proof -
  let ?run = "clobber_if_necessary [''src''] gyp_builder [''y'' @ [NL]] fresh_world"
  have gb: "get_build_dir [''src''] (environ fresh_world) (gyp_builder (environ fresh_world)) False
     = Inr [''src'', ''out'']" by code_simp
  have ok: "fst ?run = Inr ()" by code_simp
  then have res: "?run = (Inr (), snd ?run)" by (simp add: prod_eq_iff)
  have m: "landmines_path_of [''src'', ''out''] = [''src'', ''.landmines'']" by code_simp
  have wl: "writelines [''y'' @ [NL]] = ''y'' @ [NL]" by code_simp
  have nr: "Rmtree [''src'', ''out''] \<notin> set (new_events fresh_world (snd ?run))" by code_simp
  have mkd: "fst (os_makedirs [''src'', ''out''] fresh_world) = Inr ()" by code_simp
  from C1_marker_and_output_directory_after_success [where builder = gyp_builder and w = fresh_world,
      OF gb res] nr mkd
  have "fs (snd ?run) [''src'', ''.landmines''] = Some (File (''y'' @ [NL]))"
    and "fs (snd ?run) [''src'', ''out''] = Some Dir"
    unfolding m wl by simp_all
  with gb ok show ?thesis by blast
qed

text \<open>
  C1 as stated fails: on a built checkout whose marker differs, the invocation succeeds and
  the build output directory, which existed before, is gone afterwards.
\<close>

theorem C1_counterexample:
  "fst (clobber_if_necessary [''src''] gyp_builder [''y'' @ [NL]] built_world) = Inr ()
   \<and> fs built_world [''src'', ''out''] = Some Dir
   \<and> get_build_dir [''src''] (environ built_world) (gyp_builder (environ built_world)) False
        = Inr [''src'', ''out'']
   \<and> fs (snd (clobber_if_necessary [''src''] gyp_builder [''y'' @ [NL]] built_world))
        [''src'', ''out''] = None"
  by code_simp

text \<open>
  C2. When the marker is a readable file whose lines differ from the new landmines,
  \<open>clobber_if_necessary\<close> calls \<open>rmtree\<close> on the build output directory, and the only
  write of the marker comes after that call. When the invocation succeeds, nothing is left
  at or below the output directory and the marker holds the new landmines.
\<close>

theorem C2_changed_marker_clobbers_before_save:
  assumes gb: "get_build_dir SRC_DIR (environ w) (builder (environ w)) False = Inr out_dir"
    and mk: "fs w (landmines_path_of out_dir) = Some (File content)"
    and rd: "open_read_fault w = None"
    and ne: "readlines content \<noteq> new_landmines"
    and res: "clobber_if_necessary SRC_DIR builder new_landmines w = (r, w')"
  shows "(\<exists>post. trace w' = trace w @ [Makedirs out_dir, Stdout (''Clobbering due to:'' @ [NL]),
             Stdout_diff (readlines content) new_landmines, Rmtree out_dir] @ post
           \<and> (post = [] \<or> post = [Write_file (landmines_path_of out_dir) (writelines new_landmines)]))
       \<and> (r = Inr () \<longrightarrow>
             last (trace w') = Write_file (landmines_path_of out_dir) (writelines new_landmines)
           \<and> (\<forall>q. prefix out_dir q \<longrightarrow> fs w' q = None)
           \<and> fs w' (landmines_path_of out_dir) = Some (File (writelines new_landmines)))"
  using clobber_changed_run [where builder = builder and w = w, OF gb mk rd ne res] .

theorem C2_witness:
  "get_build_dir [''src''] (environ built_world) (gyp_builder (environ built_world)) False
     = Inr [''src'', ''out'']
   \<and> fs built_world (landmines_path_of [''src'', ''out'']) = Some (File (''x'' @ [NL]))
   \<and> open_read_fault built_world = None
   \<and> readlines (''x'' @ [NL]) \<noteq> [''y'' @ [NL]]
   \<and> fst (clobber_if_necessary [''src''] gyp_builder [''y'' @ [NL]] built_world) = Inr ()
   \<and> trace (snd (clobber_if_necessary [''src''] gyp_builder [''y'' @ [NL]] built_world)) =
       [Makedirs [''src'', ''out''], Stdout (''Clobbering due to:'' @ [NL]),
        Stdout_diff [''x'' @ [NL]] [''y'' @ [NL]], Rmtree [''src'', ''out''],
        Write_file [''src'', ''.landmines''] (''y'' @ [NL])]
   \<and> fs (snd (clobber_if_necessary [''src''] gyp_builder [''y'' @ [NL]] built_world))
        [''src'', ''out'', ''obj.o''] = None"
proof -
  let ?run = "clobber_if_necessary [''src''] gyp_builder [''y'' @ [NL]] built_world"
  have gb: "get_build_dir [''src''] (environ built_world) (gyp_builder (environ built_world)) False
     = Inr [''src'', ''out'']" by code_simp
  have mk: "fs built_world (landmines_path_of [''src'', ''out'']) = Some (File (''x'' @ [NL]))"
    by code_simp
  have rd: "open_read_fault built_world = None" by code_simp
  have ne: "readlines (''x'' @ [NL]) \<noteq> [''y'' @ [NL]]" by code_simp
  have ok: "fst ?run = Inr ()" by code_simp
  have m: "landmines_path_of [''src'', ''out''] = [''src'', ''.landmines'']" by code_simp
  have rl: "readlines (''x'' @ [NL]) = [''x'' @ [NL]]" by code_simp
  have wl: "writelines [''y'' @ [NL]] = ''y'' @ [NL]" by code_simp
  have tr0: "trace built_world = []" by code_simp
  have px: "prefix [''src'', ''out''] [''src'', ''out'', ''obj.o'']" by code_simp
  from C2_changed_marker_clobbers_before_save [where builder = gyp_builder and w = built_world,
      OF gb mk rd ne prod.collapse [symmetric]] ok
  have "trace (snd ?run) = [Makedirs [''src'', ''out''], Stdout (''Clobbering due to:'' @ [NL]),
        Stdout_diff [''x'' @ [NL]] [''y'' @ [NL]], Rmtree [''src'', ''out''],
        Write_file [''src'', ''.landmines''] (''y'' @ [NL])]"
    and "fs (snd ?run) [''src'', ''out'', ''obj.o''] = None"
    using px unfolding m rl wl tr0 by auto
  with gb mk rd ne ok show ?thesis by blast
qed

text \<open>
  C3, as the code has it. With an empty list of new landmines and a marker that is absent
  or empty, the invocation does not clobber: it calls \<open>makedirs\<close> and then at most issues
  the write of the empty marker, and whatever was in the file system before is still there
  unchanged. It has effects all the same: when \<open>makedirs\<close> succeeds the build output
  directory is a directory afterwards; the write of the empty marker is issued whenever the
  marker is absent and is not the path of the output directory itself, or is an empty
  file that can be read; and after a successful invocation the marker is an empty file.
\<close>

theorem C3_empty_landmines_create_and_write_only:
  assumes gb: "get_build_dir SRC_DIR (environ w) (builder (environ w)) False = Inr out_dir"
    and mk: "fs w (landmines_path_of out_dir) = None \<or> fs w (landmines_path_of out_dir) = Some (File [])"
    and res: "clobber_if_necessary SRC_DIR builder [] w = (r, w')"
  shows "(\<exists>post. new_events w w' = Makedirs out_dir # post
            \<and> (post = [] \<or> post = [Write_file (landmines_path_of out_dir) []]))
       \<and> (\<forall>q n. fs w q = Some n \<longrightarrow> fs w' q = Some n)
       \<and> (fst (os_makedirs out_dir w) = Inr () \<longrightarrow> fs w' out_dir = Some Dir)
       \<and> ((fs w (landmines_path_of out_dir) = None \<and> out_dir \<noteq> landmines_path_of out_dir)
            \<or> (fs w (landmines_path_of out_dir) = Some (File []) \<and> open_read_fault w = None) \<longrightarrow>
            new_events w w' = [Makedirs out_dir, Write_file (landmines_path_of out_dir) []])
       \<and> (r = Inr () \<longrightarrow> fs w' (landmines_path_of out_dir) = Some (File []))"
  using empty_landmines_run [where builder = builder and w = w, OF gb mk res]
    empty_landmines_effects [where builder = builder and w = w, OF gb mk res]
  by (intro conjI) (elim conjE, assumption)+

theorem C3_witness:
  "get_build_dir [''src''] (environ fresh_world) (gyp_builder (environ fresh_world)) False
     = Inr [''src'', ''out'']
   \<and> fs fresh_world (landmines_path_of [''src'', ''out'']) = None
   \<and> fs fresh_world [''src''] = Some Dir
   \<and> fst (os_makedirs [''src'', ''out''] fresh_world) = Inr ()
   \<and> [''src'', ''out''] \<noteq> landmines_path_of [''src'', ''out'']
   \<and> fst (clobber_if_necessary [''src''] gyp_builder [] fresh_world) = Inr ()
   \<and> fs (snd (clobber_if_necessary [''src''] gyp_builder [] fresh_world)) [''src''] = Some Dir
   \<and> fs (snd (clobber_if_necessary [''src''] gyp_builder [] fresh_world)) [''src'', ''out'']
        = Some Dir
   \<and> fs (snd (clobber_if_necessary [''src''] gyp_builder [] fresh_world)) [''src'', ''.landmines'']
        = Some (File [])
   \<and> new_events fresh_world (snd (clobber_if_necessary [''src''] gyp_builder [] fresh_world))
        = [Makedirs [''src'', ''out''], Write_file [''src'', ''.landmines''] []]"
proof -
  let ?run = "clobber_if_necessary [''src''] gyp_builder [] fresh_world"
  have gb: "get_build_dir [''src''] (environ fresh_world) (gyp_builder (environ fresh_world)) False
     = Inr [''src'', ''out'']" by code_simp
  have mk: "fs fresh_world (landmines_path_of [''src'', ''out'']) = None" by code_simp
  then have mk': "fs fresh_world (landmines_path_of [''src'', ''out'']) = None
      \<or> fs fresh_world (landmines_path_of [''src'', ''out'']) = Some (File [])" by simp
  have src: "fs fresh_world [''src''] = Some Dir" by code_simp
  have mkd: "fst (os_makedirs [''src'', ''out''] fresh_world) = Inr ()" by code_simp
  have ne: "[''src'', ''out''] \<noteq> landmines_path_of [''src'', ''out'']" by code_simp
  have ok: "fst ?run = Inr ()" by code_simp
  have m: "landmines_path_of [''src'', ''out''] = [''src'', ''.landmines'']" by code_simp
  from C3_empty_landmines_create_and_write_only [where builder = gyp_builder and w = fresh_world, OF gb mk' prod.collapse [symmetric]]
    src mkd ne ok mk
  have "fs (snd ?run) [''src''] = Some Dir"
    and "fs (snd ?run) [''src'', ''out''] = Some Dir"
    and "fs (snd ?run) [''src'', ''.landmines''] = Some (File [])"
    and "new_events fresh_world (snd ?run)
        = [Makedirs [''src'', ''out''], Write_file [''src'', ''.landmines''] []]"
    unfolding m by auto
  with gb mk src mkd ne ok show ?thesis by blast
qed

text \<open>
  C3 as stated fails: on a fresh checkout, with no new landmines and no marker, the
  invocation creates the build output directory and writes an empty marker file.
\<close>

theorem C3_counterexample:
  "fs fresh_world [''src'', ''out''] = None
   \<and> fs fresh_world [''src'', ''.landmines''] = None
   \<and> fst (clobber_if_necessary [''src''] gyp_builder [] fresh_world) = Inr ()
   \<and> fs (snd (clobber_if_necessary [''src''] gyp_builder [] fresh_world)) [''src'', ''out'']
        = Some Dir
   \<and> fs (snd (clobber_if_necessary [''src''] gyp_builder [] fresh_world)) [''src'', ''.landmines'']
        = Some (File [])
   \<and> trace (snd (clobber_if_necessary [''src''] gyp_builder [] fresh_world)) =
        [Makedirs [''src'', ''out''], Write_file [''src'', ''.landmines''] []]"
  by code_simp

text \<open>
  C4 fails on the code: when \<open>makedirs\<close> is refused with \<open>EACCES\<close>, the handler drops
  the error and the invocation goes on to a successful end, with no output directory.
\<close>

theorem C4_makedirs_error_is_dropped:
  "fst (os_makedirs [''src'', ''out''] denied_world) = Inl (OSError EACCES)
   \<and> fst (clobber_if_necessary [''src''] gyp_builder [''y'' @ [NL]] denied_world) = Inr ()
   \<and> fs (snd (clobber_if_necessary [''src''] gyp_builder [''y'' @ [NL]] denied_world))
        [''src'', ''out''] = None
   \<and> trace (snd (clobber_if_necessary [''src''] gyp_builder [''y'' @ [NL]] denied_world)) =
        [Makedirs [''src'', ''out''], Write_file [''src'', ''.landmines''] (''y'' @ [NL])]"
  by code_simp

text \<open>
  C5, as the code has it. When the marker is a readable file whose lines differ from the
  new landmines and \<open>rmtree\<close> on the build output directory fails, be it refused by the
  operating system after part of the tree is gone or because no directory is there, the
  invocation ends with the error of \<open>rmtree\<close> and no write was issued. Unless the build
  output directory is the root of the file system, the marker file is what it was, and an
  invocation that follows with the same landmines calls \<open>rmtree\<close> again.
\<close>

theorem C5_failed_deletion_aborts_before_save:
  assumes gb: "get_build_dir SRC_DIR (environ w) (builder (environ w)) False = Inr out_dir"
    and mk: "fs w (landmines_path_of out_dir) = Some (File content)"
    and rd: "open_read_fault w = None"
    and ne: "readlines content \<noteq> new_landmines"
    and fails: "fst (shutil_rmtree out_dir (snd (os_makedirs out_dir w))) = Inl err"
    and res: "clobber_if_necessary SRC_DIR builder new_landmines w = (r, w')"
  shows "r = Inl err
       \<and> new_events w w' = [Makedirs out_dir, Stdout (''Clobbering due to:'' @ [NL]),
             Stdout_diff (readlines content) new_landmines, Rmtree out_dir]
       \<and> (out_dir \<noteq> [] \<longrightarrow>
             fs w' (landmines_path_of out_dir) = Some (File content)
           \<and> (\<forall>r2 w2. clobber_if_necessary SRC_DIR builder new_landmines w' = (r2, w2) \<longrightarrow>
                 Rmtree out_dir \<in> set (new_events w' w2)))"
proof -
  note abort = failed_deletion_abort [where builder = builder and w = w, OF gb mk rd ne fails res]
  have "fs w' (landmines_path_of out_dir) = Some (File content)
           \<and> (\<forall>r2 w2. clobber_if_necessary SRC_DIR builder new_landmines w' = (r2, w2) \<longrightarrow>
                 Rmtree out_dir \<in> set (new_events w' w2))" if nr: "out_dir \<noteq> []"
    using failed_deletion_run [where builder = builder and w = w, OF gb nr mk rd ne fails res]
    by (elim conjE) (intro conjI)
  with abort show ?thesis by blast
qed

theorem C5_witness:
  "get_build_dir [''src''] (environ locked_world) (gyp_builder (environ locked_world)) False
     = Inr [''src'', ''out'']
   \<and> [''src'', ''out''] \<noteq> ([] :: path)
   \<and> fs locked_world (landmines_path_of [''src'', ''out'']) = Some (File (''x'' @ [NL]))
   \<and> open_read_fault locked_world = None
   \<and> readlines (''x'' @ [NL]) \<noteq> [''y'' @ [NL]]
   \<and> fst (shutil_rmtree [''src'', ''out''] (snd (os_makedirs [''src'', ''out''] locked_world)))
        = Inl (OSError EACCES)
   \<and> fst (clobber_if_necessary [''src''] gyp_builder [''y'' @ [NL]] locked_world) = Inl (OSError EACCES)
   \<and> fs (snd (clobber_if_necessary [''src''] gyp_builder [''y'' @ [NL]] locked_world))
        [''src'', ''.landmines''] = Some (File (''x'' @ [NL]))
   \<and> fs (snd (clobber_if_necessary [''src''] gyp_builder [''y'' @ [NL]] locked_world))
        [''src'', ''out'', ''obj.o''] = None"
proof -
  let ?run = "clobber_if_necessary [''src''] gyp_builder [''y'' @ [NL]] locked_world"
  have gb: "get_build_dir [''src''] (environ locked_world) (gyp_builder (environ locked_world)) False
     = Inr [''src'', ''out'']" by code_simp
  have nr: "[''src'', ''out''] \<noteq> ([] :: path)" by simp
  have mk: "fs locked_world (landmines_path_of [''src'', ''out'']) = Some (File (''x'' @ [NL]))"
    by code_simp
  have rd: "open_read_fault locked_world = None" by code_simp
  have ne: "readlines (''x'' @ [NL]) \<noteq> [''y'' @ [NL]]" by code_simp
  have fails: "fst (shutil_rmtree [''src'', ''out''] (snd (os_makedirs [''src'', ''out''] locked_world)))
        = Inl (OSError EACCES)" by code_simp
  have part: "fs (snd ?run) [''src'', ''out'', ''obj.o''] = None" by code_simp
  have m: "landmines_path_of [''src'', ''out''] = [''src'', ''.landmines'']" by code_simp
  from C5_failed_deletion_aborts_before_save [where builder = gyp_builder and w = locked_world,
      OF gb mk rd ne fails prod.collapse [symmetric]] nr
  have "fst ?run = Inl (OSError EACCES)"
    and "fs (snd ?run) [''src'', ''.landmines''] = Some (File (''x'' @ [NL]))"
    unfolding m by simp_all
  with gb nr mk rd ne fails part show ?thesis by blast
qed

text \<open>
  C5 as stated fails: with \<open>CHROMIUM_OUT_DIR\<close> set to \<open>..\<close> in a checkout at \<open>/src\<close> the
  build output directory is the root, the marker \<open>/.landmines\<close> lies inside it, and a
  deletion that is refused after the marker went ends the invocation with the marker gone.
\<close>

theorem C5_counterexample:
  "get_build_dir [''src''] (environ root_world) (gyp_builder (environ root_world)) False = Inr []
   \<and> landmines_path_of [] = [''.landmines'']
   \<and> fs root_world [''.landmines''] = Some (File (''x'' @ [NL]))
   \<and> open_read_fault root_world = None
   \<and> readlines (''x'' @ [NL]) \<noteq> [''y'' @ [NL]]
   \<and> fst (shutil_rmtree [] (snd (os_makedirs [] root_world))) = Inl (OSError EACCES)
   \<and> fst (clobber_if_necessary [''src''] gyp_builder [''y'' @ [NL]] root_world)
        = Inl (OSError EACCES)
   \<and> fs (snd (clobber_if_necessary [''src''] gyp_builder [''y'' @ [NL]] root_world))
        [''.landmines''] = None"
  by code_simp



text \<open>
  C7. For landmines as \<open>main\<close> builds them (each line ends with its only newline, see
  \<open>collect_landmines_lines\<close>), writing the list and reading it back gives the list
  again. So after a successful invocation, a second one with the same list in the world
  the first one left issues no \<open>rmtree\<close>: it calls \<open>makedirs\<close> and then at most writes
  the marker again; the marker holds the landmines after the first and after the second
  invocation, and the second succeeds when the marker can be read.
\<close>

theorem C7_same_landmines_twice:
  assumes gb: "get_build_dir SRC_DIR (environ w) (builder (environ w)) False = Inr out_dir"
    and lines: "list_all landmine_line new_landmines"
    and first: "clobber_if_necessary SRC_DIR builder new_landmines w = (Inr (), w1)"
    and second: "clobber_if_necessary SRC_DIR builder new_landmines w1 = (r2, w2)"
  shows "readlines (writelines new_landmines) = new_landmines
       \<and> fs w1 (landmines_path_of out_dir) = Some (File (writelines new_landmines))
       \<and> fs w2 (landmines_path_of out_dir) = Some (File (writelines new_landmines))
       \<and> (\<exists>post. new_events w1 w2 = Makedirs out_dir # post
            \<and> (post = [] \<or> post = [Write_file (landmines_path_of out_dir) (writelines new_landmines)]))
       \<and> (open_read_fault w = None \<longrightarrow>
            r2 = Inr () \<and> new_events w1 w2 =
              [Makedirs out_dir, Write_file (landmines_path_of out_dir) (writelines new_landmines)])"
  using second_run [where builder = builder and w = w, OF gb lines first second] .

theorem C7_witness:
  "get_build_dir [''src''] (environ built_world) (gyp_builder (environ built_world)) False
     = Inr [''src'', ''out'']
   \<and> list_all landmine_line example_landmines
   \<and> fst (clobber_if_necessary [''src''] gyp_builder example_landmines built_world) = Inr ()
   \<and> fst (clobber_if_necessary [''src''] gyp_builder example_landmines
            (snd (clobber_if_necessary [''src''] gyp_builder example_landmines built_world)))
        = Inr ()
   \<and> new_events
        (snd (clobber_if_necessary [''src''] gyp_builder example_landmines built_world))
        (snd (clobber_if_necessary [''src''] gyp_builder example_landmines
               (snd (clobber_if_necessary [''src''] gyp_builder example_landmines built_world))))
      = [Makedirs [''src'', ''out''],
         Write_file [''src'', ''.landmines''] (''os:linux'' @ [NL] @ ''ninja'' @ [NL])]"
proof -
  let ?new = "example_landmines"
  let ?run1 = "clobber_if_necessary [''src''] gyp_builder ?new built_world"
  let ?run2 = "clobber_if_necessary [''src''] gyp_builder ?new (snd ?run1)"
  have gb: "get_build_dir [''src''] (environ built_world) (gyp_builder (environ built_world)) False
     = Inr [''src'', ''out'']" by code_simp
  have lines: "list_all landmine_line ?new" by code_simp
  have ok: "fst ?run1 = Inr ()" by code_simp
  then have first: "?run1 = (Inr (), snd ?run1)" by (simp add: prod_eq_iff)
  have rd: "open_read_fault built_world = None" by code_simp
  have m: "landmines_path_of [''src'', ''out''] = [''src'', ''.landmines'']" by code_simp
  have wl: "writelines ?new = ''os:linux'' @ [NL] @ ''ninja'' @ [NL]" by code_simp
  from C7_same_landmines_twice [where builder = gyp_builder and w = built_world,
      OF gb lines first prod.collapse [symmetric]] rd
  have "fst ?run2 = Inr ()"
    and "new_events (snd ?run1) (snd ?run2)
      = [Makedirs [''src'', ''out''],
         Write_file [''src'', ''.landmines''] (''os:linux'' @ [NL] @ ''ninja'' @ [NL])]"
    unfolding m wl by simp_all
  with gb lines ok show ?thesis by blast
qed



text \<open>
  C9. When the command line leaves no arguments and the builder is
  \<open>dump_dependency_json\<close> or \<open>eclipse\<close>, \<open>main\<close> returns 0 right after
  \<open>process_options\<close>: only the logging level has been set, the file system is what it was
  and no call was issued.
\<close>

theorem C9_skip_generators_return_at_once:
  assumes cl: "args cl = []"
    and skip: "builder (environ w) \<in> set [''dump_dependency_json'', ''eclipse'']"
  shows "main SRC_DIR builder SetEnvironment run_script cl w =
           (Inr 0, w\<lparr>log_level := (if opt_verbose cl \<or> environ w ''LANDMINES_VERBOSE'' \<noteq> None
                                     then DEBUG else ERROR)\<rparr>)
       \<and> fs (snd (main SRC_DIR builder SetEnvironment run_script cl w)) = fs w
       \<and> trace (snd (main SRC_DIR builder SetEnvironment run_script cl w)) = trace w"
proof -
  let ?w1 = "w\<lparr>log_level := (if opt_verbose cl \<or> environ w ''LANDMINES_VERBOSE'' \<noteq> None
                                then DEBUG else ERROR)\<rparr>"
  have "\<exists>scripts. process_options SRC_DIR cl w = (Inr scripts, ?w1)"
    using cl by (simp add: process_options_def Let_def split: option.splits)
  then obtain scripts where po: "process_options SRC_DIR cl w = (Inr scripts, ?w1)" ..
  have "builder (environ ?w1) \<in> set [''dump_dependency_json'', ''eclipse'']"
    using skip by simp
  then have "main SRC_DIR builder SetEnvironment run_script cl w = (Inr 0, ?w1)"
    unfolding main_def po by (simp only: prod.case sum.case if_True)
  then show ?thesis by simp
qed

theorem C9_witness:
  "args no_options = []
   \<and> gyp_builder (environ eclipse_world) \<in> set [''dump_dependency_json'', ''eclipse'']
   \<and> fst (main [''src''] gyp_builder environ example_run_script no_options eclipse_world) = Inr 0
   \<and> fs (snd (main [''src''] gyp_builder environ example_run_script no_options eclipse_world))
        = fs eclipse_world
   \<and> trace (snd (main [''src''] gyp_builder environ example_run_script no_options eclipse_world))
        = trace eclipse_world"
proof -
  have cl: "args no_options = []" by code_simp
  have skip: "gyp_builder (environ eclipse_world) \<in> set [''dump_dependency_json'', ''eclipse'']"
    by code_simp
  from C9_skip_generators_return_at_once [where builder = gyp_builder and w = eclipse_world, OF cl skip,
      of "[''src'']" environ example_run_script]
  have "fst (main [''src''] gyp_builder environ example_run_script no_options eclipse_world) = Inr 0"
    and "fs (snd (main [''src''] gyp_builder environ example_run_script no_options eclipse_world))
        = fs eclipse_world"
    and "trace (snd (main [''src''] gyp_builder environ example_run_script no_options eclipse_world))
        = trace eclipse_world"
    by simp_all
  with cl skip show ?thesis by blast
qed

section \<open>The components of a Chromium revision\<close>

text \<open>
  C10. Whenever \<open>GetChromiumComponents\<close> returns a dictionary, every key of it ends with
  \<open>/\<close> and is the \<open>path\<close> of its entry, and the key \<open>src/\<close> is there with the name
  \<open>chromium\<close> and the revision that was asked for.
\<close>

theorem C10_component_keys_and_chromium_entry:
  assumes ok: "GetChromiumComponents ext cfg chromium_revision os_platform deps_file_downloader
                 = Inr components"
  shows "(\<forall>k c. components k = Some c \<longrightarrow> endswith k ''/'' \<and> path c = k)
       \<and> (\<exists>c. components ''src/'' = Some c \<and> name c = ''chromium''
              \<and> revision c = chromium_revision)"
proof -
  from ok obtain all_deps g0 g m where
    loop: "components_loop ext cfg all_deps (g0, Map.empty) = Inr (g, m)"
    and res: "components = m(''src/'' \<mapsto>
        \<lparr>path = ''src/'', name = ''chromium'',
         repository = (if g then git_base_url cfg else svn_base_url cfg),
         repository_type = (if g then ''git'' else ''svn''),
         revision = chromium_revision\<rparr>)"
    by (rule GetChromiumComponents_Inr)
  have "keys_ok m" using loop keys_ok_empty by (rule components_loop_keys)
  moreover have "endswith ''src/'' ''/''"
    unfolding endswith_def by (rule suffixI [of _ "''src''"]) simp
  ultimately have "keys_ok components"
    unfolding res by (intro keys_ok_update) simp_all
  then have "\<forall>k c. components k = Some c \<longrightarrow> endswith k ''/'' \<and> path c = k"
    by (simp add: keys_ok_def)
  moreover have "\<exists>c. components ''src/'' = Some c \<and> name c = ''chromium''
              \<and> revision c = chromium_revision"
    unfolding res by simp
  ultimately show ?thesis by blast
qed

theorem C10_witness:
  "\<not> isl (GetChromiumComponents example_externals example_config ''12345'' (Some ''Linux'')
            example_downloader)
   \<and> map_option name
        (projr (GetChromiumComponents example_externals example_config ''12345'' (Some ''Linux'')
                  example_downloader) ''src/'') = Some ''chromium''
   \<and> map_option revision
        (projr (GetChromiumComponents example_externals example_config ''12345'' (Some ''Linux'')
                  example_downloader) ''src/'') = Some ''12345''
   \<and> projr (GetChromiumComponents example_externals example_config ''12345'' (Some ''Linux'')
               example_downloader) ''src/third_party/WebKit'' = None
   \<and> map_option path
        (projr (GetChromiumComponents example_externals example_config ''12345'' (Some ''Linux'')
                  example_downloader) ''src/third_party/WebKit/'') = Some ''src/third_party/WebKit/''"
proof -
  let ?G = "GetChromiumComponents example_externals example_config ''12345'' (Some ''Linux'')
              example_downloader"
  have ok: "\<not> isl ?G" by code_simp
  then have res: "?G = Inr (projr ?G)" by simp
  have absent: "projr ?G ''src/third_party/WebKit'' = None" by code_simp
  have present: "projr ?G ''src/third_party/WebKit/'' \<noteq> None" by code_simp
  note C10 = C10_component_keys_and_chromium_entry [OF res]
  from C10 have "map_option name (projr ?G ''src/'') = Some ''chromium''"
    and "map_option revision (projr ?G ''src/'') = Some ''12345''"
    by auto
  moreover from C10 present
  have "map_option path (projr ?G ''src/third_party/WebKit/'') = Some ''src/third_party/WebKit/''"
    by auto
  ultimately show ?thesis using ok absent by blast
qed

end
